theory Spec2Isabelle
  imports Main
begin

section \<open>The account migrator of \<^verbatim>\<open>src/pdsmoover.js\<close>\<close>

text \<open>
  The class \<^verbatim>\<open>Migrator\<close> drives two remote services (the old and the new PDS), two
  resolvers and the PLC directory through \<^verbatim>\<open>await\<close>ed calls. The embedding keeps the
  instance fields in a record, makes every remote call a function of the record of
  services (\<open>world\<close>) applied to the calls made so far, and logs every call with its
  outcome, so that statements about which calls are issued, and in which order, are
  statements about the log.

  Strings are byte strings (\<open>char list\<close>); identifiers, tokens, URLs and payloads are
  opaque strings. \<^verbatim>\<open>console.log\<close> and \<^verbatim>\<open>console.error\<close> are not modelled.
\<close>

subsection \<open>Values exchanged with the services\<close>

type_synonym did = string
type_synonym cid = string
type_synonym url = string

text \<open>An optional cursor: \<^verbatim>\<open>undefined\<close> or a string.\<close>

type_synonym cursor = "string option"

text \<open>\<^verbatim>\<open>new AtpAgent({service: url})\<close>: an agent is known by the address it is bound to;
  its session is state of the service.\<close>

datatype agent = AtpAgent url

text \<open>The value found at \<^verbatim>\<open>data.rotationKeys\<close> of the recommended credentials. The
  lexicon makes it an optional array of strings; the other shapes are what a JSON body
  can hold there.\<close>

datatype jsval =
    Undefined
  | Null
  | Boolean bool
  | Number int
  | String string
  | Array "string list"

record credentials =
  rotationKeys :: jsval
  otherCredentials :: string

record accountStatus =
  activated :: bool
  expectedBlobs :: int
  importedBlobs :: int

record didService =
  serviceType :: string
  serviceEndpoint :: url

text \<open>A DID document: \<^verbatim>\<open>didDoc.service\<close> is an optional array.\<close>

record didDoc =
  service :: "didService list option"

record listedBlobs =
  cids :: "cid list"
  blobsCursor :: cursor

record recordBlob =
  blobCid :: cid
  recordUri :: string

record missingBlobsPage =
  blobs :: "recordBlob list"
  missingCursor :: cursor

record blobRes =
  blobData :: string
  contentType :: "string option"

subsection \<open>Remote calls and their log\<close>

datatype request =
    ResolveHandle agent string
  | HandleResolverResolve string
  | DocResolverResolve did
  | Login agent string string "string option"
  | DescribeServer agent
  | GetServiceAuth agent string string
  | CreateAccount agent did string string string "string option" string
  | GetRepo agent did
  | ImportRepo agent string string
  | CheckAccountStatus agent
  | ListBlobs agent did cursor nat
  | GetBlob agent did cid
  | UploadBlob agent string "string option"
  | ListMissingBlobs agent cursor nat
  | GetPreferences agent
  | PutPreferences agent string
  | RequestPlcOperationSignature agent
  | GetRecommendedDidCredentials agent
  | SignPlcOperation agent string credentials
  | SubmitPlcOperation agent string
  | ActivateAccount agent
  | DeactivateAccount agent
  | FetchPlcLog url

text \<open>A logged call: it returned (\<open>Ok\<close>) or it threw (\<open>Failed\<close>).\<close>

datatype event = Ok request | Failed request

text \<open>What a call of this program can end with: a rejection by a remote service (with
  the service's message), an \<^verbatim>\<open>Error\<close> thrown by the program itself (with the
  message of the source), or the \<^verbatim>\<open>TypeError\<close> of a property read on \<^verbatim>\<open>null\<close>.\<close>

datatype error = Remote string | Error string | TypeError

text \<open>The services. Each function is given the log of the calls made before this one
  and the arguments of the call, and answers with a rejection message or a result. The
  response to the \<open>n\<close>-th call may depend on everything that happened before it, which
  covers every sequence of responses a run can meet.\<close>

record world =
  identity_resolveHandle :: "event list \<Rightarrow> agent \<Rightarrow> string \<Rightarrow> string + did"
  handleResolver_resolve :: "event list \<Rightarrow> string \<Rightarrow> string + did"
  docResolver_resolve :: "event list \<Rightarrow> did \<Rightarrow> string + didDoc"
  agent_login :: "event list \<Rightarrow> agent \<Rightarrow> string \<Rightarrow> string \<Rightarrow> string option \<Rightarrow> string + unit"
  server_describeServer :: "event list \<Rightarrow> agent \<Rightarrow> string + did"
  server_getServiceAuth :: "event list \<Rightarrow> agent \<Rightarrow> string \<Rightarrow> string \<Rightarrow> string + string"
  server_createAccount ::
    "event list \<Rightarrow> agent \<Rightarrow> did \<Rightarrow> string \<Rightarrow> string \<Rightarrow> string \<Rightarrow> string option \<Rightarrow> string
      \<Rightarrow> string + did"
  sync_getRepo :: "event list \<Rightarrow> agent \<Rightarrow> did \<Rightarrow> string + string"
  repo_importRepo :: "event list \<Rightarrow> agent \<Rightarrow> string \<Rightarrow> string \<Rightarrow> string + unit"
  server_checkAccountStatus :: "event list \<Rightarrow> agent \<Rightarrow> string + accountStatus"
  sync_listBlobs :: "event list \<Rightarrow> agent \<Rightarrow> did \<Rightarrow> cursor \<Rightarrow> nat \<Rightarrow> string + listedBlobs"
  sync_getBlob :: "event list \<Rightarrow> agent \<Rightarrow> did \<Rightarrow> cid \<Rightarrow> string + blobRes"
  repo_uploadBlob :: "event list \<Rightarrow> agent \<Rightarrow> string \<Rightarrow> string option \<Rightarrow> string + unit"
  repo_listMissingBlobs :: "event list \<Rightarrow> agent \<Rightarrow> cursor \<Rightarrow> nat \<Rightarrow> string + missingBlobsPage"
  actor_getPreferences :: "event list \<Rightarrow> agent \<Rightarrow> string + string"
  actor_putPreferences :: "event list \<Rightarrow> agent \<Rightarrow> string \<Rightarrow> string + unit"
  identity_requestPlcOperationSignature :: "event list \<Rightarrow> agent \<Rightarrow> string + unit"
  identity_getRecommendedDidCredentials :: "event list \<Rightarrow> agent \<Rightarrow> string + credentials"
  identity_signPlcOperation :: "event list \<Rightarrow> agent \<Rightarrow> string \<Rightarrow> credentials \<Rightarrow> string + string"
  identity_submitPlcOperation :: "event list \<Rightarrow> agent \<Rightarrow> string \<Rightarrow> string + unit"
  server_activateAccount :: "event list \<Rightarrow> agent \<Rightarrow> string + unit"
  server_deactivateAccount :: "event list \<Rightarrow> agent \<Rightarrow> string + unit"
  fetch_plcLog :: "event list \<Rightarrow> url \<Rightarrow> string + string option list"

subsection \<open>The instance and the state of a run\<close>

text \<open>The fields the constructor sets.\<close>

record migrator =
  oldAgent :: "agent option"
  newAgent :: "agent option"
  missingBlobs :: "cid list"
  createNewAccount :: bool
  migrateRepo :: bool
  migrateBlobs :: bool
  migrateMissingBlobs :: bool
  migratePrefs :: bool
  migratePlcRecord :: bool

text \<open>The messages handed to \<^verbatim>\<open>statusUpdateHandler\<close>; the template literals keep their
  arguments.\<close>

datatype status =
    Status string
  | MigratingBlobs int int
  | LoggingInTo url

text \<open>The state threaded through a run: the instance, the log of remote calls and the
  messages the status handler received.\<close>

record state = migrator +
  trace :: "event list"
  statuses :: "status list"

definition Migrator :: state where
  "Migrator =
     \<lparr>oldAgent = None, newAgent = None, missingBlobs = [],
      createNewAccount = True, migrateRepo = True, migrateBlobs = True,
      migrateMissingBlobs = True, migratePrefs = True, migratePlcRecord = True,
      trace = [], statuses = []\<rparr>"

text \<open>A computation: from a state to an error or a value, and the state it leaves.\<close>

type_synonym 'a prog = "state \<Rightarrow> (error + 'a) \<times> state"

text \<open>\<^verbatim>\<open>const x = await m; k(x)\<close>: a rejection of \<open>m\<close> ends the computation.\<close>

definition await :: "'a prog \<Rightarrow> ('a \<Rightarrow> 'b prog) \<Rightarrow> 'b prog" where
  "await m k st = (case m st of (Inl e, st') \<Rightarrow> (Inl e, st') | (Inr x, st') \<Rightarrow> k x st')"

definition return :: "'a \<Rightarrow> 'a prog" where
  "return x st = (Inr x, st)"

definition throw :: "error \<Rightarrow> 'a prog" where
  "throw e st = (Inl e, st)"

text \<open>A remote call: ask the service, given the log so far, and log the call.\<close>

definition perform :: "(event list \<Rightarrow> string + 'a) \<Rightarrow> request \<Rightarrow> 'a prog" where
  "perform respond rq st =
     (case respond (trace st) of
        Inl msg \<Rightarrow> (Inl (Remote msg), st\<lparr>trace := trace st @ [Failed rq]\<rparr>)
      | Inr x \<Rightarrow> (Inr x, st\<lparr>trace := trace st @ [Ok rq]\<rparr>))"

text \<open>\<^verbatim>\<open>safeStatusUpdate\<close>: the handler, when there is one, receives the message. The
  handler is an observer: the model keeps whether one was passed.\<close>

definition safeStatusUpdate :: "bool \<Rightarrow> status \<Rightarrow> state \<Rightarrow> state" where
  "safeStatusUpdate statusUpdateHandler s st =
     (if statusUpdateHandler then st\<lparr>statuses := statuses st @ [s]\<rparr> else st)"

definition notify :: "bool \<Rightarrow> status \<Rightarrow> unit prog" where
  "notify statusUpdateHandler s st = (Inr (), safeStatusUpdate statusUpdateHandler s st)"

text \<open>\<^verbatim>\<open>if (this.flag) { ... }\<close>\<close>

definition whenFlag :: "(state \<Rightarrow> bool) \<Rightarrow> unit prog \<Rightarrow> unit prog" where
  "whenFlag flag m st = (if flag st then m st else (Inr (), st))"

subsection \<open>The calls of the source, by their path\<close>

definition publicAgent_resolveHandle :: "world \<Rightarrow> agent \<Rightarrow> string \<Rightarrow> did prog" where
  "publicAgent_resolveHandle w a hdl =
     perform (\<lambda>l. identity_resolveHandle w l a hdl) (ResolveHandle a hdl)"

definition handleResolver_resolve_call :: "world \<Rightarrow> string \<Rightarrow> did prog" where
  "handleResolver_resolve_call w hdl =
     perform (\<lambda>l. handleResolver_resolve w l hdl) (HandleResolverResolve hdl)"

definition docResolver_resolve_call :: "world \<Rightarrow> did \<Rightarrow> didDoc prog" where
  "docResolver_resolve_call w d =
     perform (\<lambda>l. docResolver_resolve w l d) (DocResolverResolve d)"

definition login :: "world \<Rightarrow> agent \<Rightarrow> string \<Rightarrow> string \<Rightarrow> string option \<Rightarrow> unit prog" where
  "login w a identifier password authFactorToken =
     perform (\<lambda>l. agent_login w l a identifier password authFactorToken)
       (Login a identifier password authFactorToken)"

definition com_atproto_server_describeServer :: "world \<Rightarrow> agent \<Rightarrow> did prog" where
  "com_atproto_server_describeServer w a =
     perform (\<lambda>l. server_describeServer w l a) (DescribeServer a)"

definition com_atproto_server_getServiceAuth :: "world \<Rightarrow> agent \<Rightarrow> string \<Rightarrow> string \<Rightarrow> string prog" where
  "com_atproto_server_getServiceAuth w a aud lxm =
     perform (\<lambda>l. server_getServiceAuth w l a aud lxm) (GetServiceAuth a aud lxm)"

definition com_atproto_server_createAccount ::
    "world \<Rightarrow> agent \<Rightarrow> did \<Rightarrow> string \<Rightarrow> string \<Rightarrow> string \<Rightarrow> string option \<Rightarrow> string \<Rightarrow> did prog" where
  "com_atproto_server_createAccount w a d hdl email password inviteCode authorization =
     perform (\<lambda>l. server_createAccount w l a d hdl email password inviteCode authorization)
       (CreateAccount a d hdl email password inviteCode authorization)"

definition com_atproto_sync_getRepo :: "world \<Rightarrow> agent \<Rightarrow> did \<Rightarrow> string prog" where
  "com_atproto_sync_getRepo w a d = perform (\<lambda>l. sync_getRepo w l a d) (GetRepo a d)"

definition com_atproto_repo_importRepo :: "world \<Rightarrow> agent \<Rightarrow> string \<Rightarrow> string \<Rightarrow> unit prog" where
  "com_atproto_repo_importRepo w a car encoding =
     perform (\<lambda>l. repo_importRepo w l a car encoding) (ImportRepo a car encoding)"

definition com_atproto_server_checkAccountStatus :: "world \<Rightarrow> agent \<Rightarrow> accountStatus prog" where
  "com_atproto_server_checkAccountStatus w a =
     perform (\<lambda>l. server_checkAccountStatus w l a) (CheckAccountStatus a)"

definition com_atproto_sync_listBlobs :: "world \<Rightarrow> agent \<Rightarrow> did \<Rightarrow> cursor \<Rightarrow> nat \<Rightarrow> listedBlobs prog" where
  "com_atproto_sync_listBlobs w a d c limit =
     perform (\<lambda>l. sync_listBlobs w l a d c limit) (ListBlobs a d c limit)"

definition com_atproto_sync_getBlob :: "world \<Rightarrow> agent \<Rightarrow> did \<Rightarrow> cid \<Rightarrow> blobRes prog" where
  "com_atproto_sync_getBlob w a d c = perform (\<lambda>l. sync_getBlob w l a d c) (GetBlob a d c)"

definition com_atproto_repo_uploadBlob :: "world \<Rightarrow> agent \<Rightarrow> string \<Rightarrow> string option \<Rightarrow> unit prog" where
  "com_atproto_repo_uploadBlob w a bytes encoding =
     perform (\<lambda>l. repo_uploadBlob w l a bytes encoding) (UploadBlob a bytes encoding)"

definition com_atproto_repo_listMissingBlobs :: "world \<Rightarrow> agent \<Rightarrow> cursor \<Rightarrow> nat \<Rightarrow> missingBlobsPage prog" where
  "com_atproto_repo_listMissingBlobs w a c limit =
     perform (\<lambda>l. repo_listMissingBlobs w l a c limit) (ListMissingBlobs a c limit)"

definition app_bsky_actor_getPreferences :: "world \<Rightarrow> agent \<Rightarrow> string prog" where
  "app_bsky_actor_getPreferences w a = perform (\<lambda>l. actor_getPreferences w l a) (GetPreferences a)"

definition app_bsky_actor_putPreferences :: "world \<Rightarrow> agent \<Rightarrow> string \<Rightarrow> unit prog" where
  "app_bsky_actor_putPreferences w a prefs =
     perform (\<lambda>l. actor_putPreferences w l a prefs) (PutPreferences a prefs)"

definition com_atproto_identity_requestPlcOperationSignature :: "world \<Rightarrow> agent \<Rightarrow> unit prog" where
  "com_atproto_identity_requestPlcOperationSignature w a =
     perform (\<lambda>l. identity_requestPlcOperationSignature w l a) (RequestPlcOperationSignature a)"

definition com_atproto_identity_getRecommendedDidCredentials :: "world \<Rightarrow> agent \<Rightarrow> credentials prog" where
  "com_atproto_identity_getRecommendedDidCredentials w a =
     perform (\<lambda>l. identity_getRecommendedDidCredentials w l a) (GetRecommendedDidCredentials a)"

definition com_atproto_identity_signPlcOperation ::
    "world \<Rightarrow> agent \<Rightarrow> string \<Rightarrow> credentials \<Rightarrow> string prog" where
  "com_atproto_identity_signPlcOperation w a token creds =
     perform (\<lambda>l. identity_signPlcOperation w l a token creds) (SignPlcOperation a token creds)"

definition com_atproto_identity_submitPlcOperation :: "world \<Rightarrow> agent \<Rightarrow> string \<Rightarrow> unit prog" where
  "com_atproto_identity_submitPlcOperation w a operation =
     perform (\<lambda>l. identity_submitPlcOperation w l a operation) (SubmitPlcOperation a operation)"

definition com_atproto_server_activateAccount :: "world \<Rightarrow> agent \<Rightarrow> unit prog" where
  "com_atproto_server_activateAccount w a =
     perform (\<lambda>l. server_activateAccount w l a) (ActivateAccount a)"

definition com_atproto_server_deactivateAccount :: "world \<Rightarrow> agent \<Rightarrow> unit prog" where
  "com_atproto_server_deactivateAccount w a =
     perform (\<lambda>l. server_deactivateAccount w l a) (DeactivateAccount a)"

text \<open>\<^verbatim>\<open>fetch(`https://plc.directory/${usersDid}/log`)\<close> and \<^verbatim>\<open>.json()\<close>. An entry of the
  log is \<open>Some endpoint\<close> when \<^verbatim>\<open>log.services.atproto_pds.endpoint\<close> is a string, and
  \<open>None\<close> when reading it, or calling \<^verbatim>\<open>toLowerCase\<close> on it, throws. A body that cannot
  be iterated is a rejection.\<close>

definition fetchPlcLog :: "world \<Rightarrow> did \<Rightarrow> string option list prog" where
  "fetchPlcLog w usersDid =
     perform (\<lambda>l. fetch_plcLog w l (''https://plc.directory/'' @ usersDid @ ''/log''))
       (FetchPlcLog (''https://plc.directory/'' @ usersDid @ ''/log''))"

subsection \<open>Strings and the tests of JavaScript\<close>

definition endsWith :: "string \<Rightarrow> string \<Rightarrow> bool" where
  "endsWith s t \<longleftrightarrow> length t \<le> length s \<and> drop (length s - length t) s = t"

text \<open>\<^verbatim>\<open>s.replace('@', '')\<close> removes the first occurrence only.\<close>

fun removeFirst :: "char \<Rightarrow> string \<Rightarrow> string" where
  "removeFirst c [] = []"
| "removeFirst c (x # xs) = (if x = c then xs else x # removeFirst c xs)"

text \<open>\<^verbatim>\<open>trim()\<close>, on the white space of ASCII.\<close>

definition isWhiteSpace :: "char \<Rightarrow> bool" where
  "isWhiteSpace c \<longleftrightarrow> c \<in> set [CHR 0x09, CHR 0x0A, CHR 0x0B, CHR 0x0C, CHR 0x0D, CHR 0x20]"

definition trim :: "string \<Rightarrow> string" where
  "trim s = rev (dropWhile isWhiteSpace (rev (dropWhile isWhiteSpace s)))"

text \<open>The characters U+202A, U+202C, U+200E, U+200F and U+2066 to U+2069 of the bracket expression in the source, as UTF-8.\<close>

definition bidiControls :: "string list" where
  "bidiControls =
     [[CHR 0xE2, CHR 0x80, CHR 0xAA], [CHR 0xE2, CHR 0x80, CHR 0xAC],
      [CHR 0xE2, CHR 0x80, CHR 0x8E], [CHR 0xE2, CHR 0x80, CHR 0x8F],
      [CHR 0xE2, CHR 0x81, CHR 0xA6], [CHR 0xE2, CHR 0x81, CHR 0xA7],
      [CHR 0xE2, CHR 0x81, CHR 0xA8], [CHR 0xE2, CHR 0x81, CHR 0xA9]]"

fun stripBidi :: "string \<Rightarrow> string" where
  "stripBidi (a # b # c # s) =
     (if [a, b, c] \<in> set bidiControls then stripBidi s else a # stripBidi (b # c # s))"
| "stripBidi s = s"

definition normalizeHandle :: "string \<Rightarrow> string" where
  "normalizeHandle oldHandle = stripBidi (trim (removeFirst CHR ''@'' oldHandle))"

text \<open>\<^verbatim>\<open>toLowerCase()\<close>, on the letters of ASCII.\<close>

definition toLowerChar :: "char \<Rightarrow> char" where
  "toLowerChar c =
     (let n = (of_char c :: nat) in if 65 \<le> n \<and> n \<le> 90 then char_of (n + 32) else c)"

definition toLowerCase :: "string \<Rightarrow> string" where
  "toLowerCase s = map toLowerChar s"

text \<open>The truth value of an optional string: \<^verbatim>\<open>undefined\<close>, \<^verbatim>\<open>null\<close> and \<^verbatim>\<open>''\<close> are
  falsy.\<close>

definition truthyString :: "string option \<Rightarrow> bool" where
  "truthyString v = (case v of None \<Rightarrow> False | Some s \<Rightarrow> s \<noteq> [])"

text \<open>The truth value of a value: an array, even an empty one, is truthy.\<close>

fun truthy :: "jsval \<Rightarrow> bool" where
  "truthy Undefined = False"
| "truthy Null = False"
| "truthy (Boolean b) = b"
| "truthy (Number n) = (n \<noteq> 0)"
| "truthy (String s) = (s \<noteq> [])"
| "truthy (Array ks) = True"

text \<open>\<^verbatim>\<open>v ?? d\<close>\<close>

fun nullish :: "jsval \<Rightarrow> jsval \<Rightarrow> jsval" where
  "nullish Undefined d = d"
| "nullish Null d = d"
| "nullish v d = v"

text \<open>\<^verbatim>\<open>didDoc.service.filter(s => s.type === 'AtprotoPersonalDataServer')[0].serviceEndpoint\<close>
  inside its \<^verbatim>\<open>try\<close>: \<open>None\<close> when the expression throws.\<close>

definition findPds :: "didDoc \<Rightarrow> url option" where
  "findPds doc =
     (case service doc of
        None \<Rightarrow> None
      | Some ss \<Rightarrow>
          (case filter (\<lambda>s. serviceType s = ''AtprotoPersonalDataServer'') ss of
             [] \<Rightarrow> None
           | s # _ \<Rightarrow> Some (serviceEndpoint s)))"

subsection \<open>\<^verbatim>\<open>migrate\<close>: from the handle to the imported repository\<close>

definition publicAgent :: agent where
  "publicAgent = AtpAgent ''https://public.api.bsky.app''"

text \<open>Lines 65 to 93: the old agent and the DID of the user.\<close>

definition resolveOldAgent :: "world \<Rightarrow> bool \<Rightarrow> string \<Rightarrow> (agent \<times> did) prog" where
  "resolveOldAgent w statusUpdateHandler oldHandle =
     (if endsWith oldHandle ''.bsky.social'' then
        await (publicAgent_resolveHandle w publicAgent oldHandle) (\<lambda>usersDid.
        return (AtpAgent ''https://bsky.social'', usersDid))
      else
        await (notify statusUpdateHandler (Status ''Resolving old PDS'')) (\<lambda>_.
        await (handleResolver_resolve_call w oldHandle) (\<lambda>usersDid.
        await (docResolver_resolve_call w usersDid) (\<lambda>doc.
        await (notify statusUpdateHandler
                 (Status ''Resolving did document and finding your current PDS URL'')) (\<lambda>_.
        case findPds doc of
          None \<Rightarrow> throw (Error ''Could not find a PDS in the DID document.'')
        | Some oldPds \<Rightarrow> return (AtpAgent oldPds, usersDid))))))"

text \<open>Lines 97 to 101 (and 323 to 327).\<close>

definition loginOld :: "world \<Rightarrow> agent \<Rightarrow> string \<Rightarrow> string \<Rightarrow> string option \<Rightarrow> unit prog" where
  "loginOld w a oldHandle password twoFactorCode =
     (case twoFactorCode of
        None \<Rightarrow> login w a oldHandle password None
      | Some code \<Rightarrow> login w a oldHandle password (Some code))"

text \<open>Lines 107 to 135, the body of \<^verbatim>\<open>if (this.createNewAccount)\<close>.\<close>

definition createAccountOnNewPds ::
    "world \<Rightarrow> bool \<Rightarrow> agent \<Rightarrow> agent \<Rightarrow> did \<Rightarrow> did \<Rightarrow> string \<Rightarrow> string \<Rightarrow> string \<Rightarrow> string option
      \<Rightarrow> unit prog" where
  "createAccountOnNewPds w statusUpdateHandler old new newHostWebDid usersDid
       newHandle newEmail password inviteCode =
     await (notify statusUpdateHandler (Status ''Creating a new account on the new PDS'')) (\<lambda>_.
     await (com_atproto_server_getServiceAuth w old newHostWebDid
              ''com.atproto.server.createAccount'') (\<lambda>serviceJwt.
     await (com_atproto_server_createAccount w new usersDid newHandle newEmail password
              (if truthyString inviteCode then inviteCode else None)
              (''Bearer '' @ serviceJwt)) (\<lambda>createdDid.
     if createdDid \<noteq> usersDid then
       throw (Error ''Did not create the new account with the same did as the old account'')
     else return ())))"

text \<open>Lines 145 to 149, the body of \<^verbatim>\<open>if (this.migrateRepo)\<close>.\<close>

definition migrateRepoToNewPds :: "world \<Rightarrow> bool \<Rightarrow> agent \<Rightarrow> agent \<Rightarrow> did \<Rightarrow> unit prog" where
  "migrateRepoToNewPds w statusUpdateHandler old new usersDid =
     await (notify statusUpdateHandler (Status ''Migrating your repo'')) (\<lambda>_.
     await (com_atproto_sync_getRepo w old usersDid) (\<lambda>repoRes.
     com_atproto_repo_importRepo w new repoRes ''application/vnd.ipld.car''))"

text \<open>Lines 65 to 105, with the handle already normalised: the old agent, logged in, the
  DID of the user and the DID of the new host.\<close>

definition prepareAgents ::
    "world \<Rightarrow> string \<Rightarrow> string \<Rightarrow> url \<Rightarrow> bool \<Rightarrow> string option \<Rightarrow> (agent \<times> did \<times> did) prog" where
  "prepareAgents w oldHandle password newPdsUrl statusUpdateHandler twoFactorCode =
     await (resolveOldAgent w statusUpdateHandler oldHandle) (\<lambda>(old, usersDid).
     await (notify statusUpdateHandler (Status ''Logging you in to the old PDS'')) (\<lambda>_.
     await (loginOld w old oldHandle password twoFactorCode) (\<lambda>_.
     await (notify statusUpdateHandler (Status
       ''Checking that the new PDS is an actual PDS (if the url is wrong this takes a while to error out)'')) (\<lambda>_.
     await (com_atproto_server_describeServer w (AtpAgent newPdsUrl)) (\<lambda>newHostWebDid.
     return (old, usersDid, newHostWebDid))))))"

text \<open>Lines 64 to 150: the old agent and the DID. The new agent is
  \<^verbatim>\<open>new AtpAgent({service: newPdsUrl})\<close> from line 104 on.\<close>

definition migrateAccount ::
    "world \<Rightarrow> string \<Rightarrow> string \<Rightarrow> url \<Rightarrow> string \<Rightarrow> string \<Rightarrow> string option \<Rightarrow> bool \<Rightarrow> string option
      \<Rightarrow> (agent \<times> did) prog" where
  "migrateAccount w oldHandle password newPdsUrl newEmail newHandle inviteCode
       statusUpdateHandler twoFactorCode =
     await (prepareAgents w oldHandle password newPdsUrl statusUpdateHandler twoFactorCode)
       (\<lambda>(old, usersDid, newHostWebDid).
     await (whenFlag createNewAccount
              (createAccountOnNewPds w statusUpdateHandler old (AtpAgent newPdsUrl)
                 newHostWebDid usersDid newHandle newEmail password inviteCode)) (\<lambda>_.
     await (notify statusUpdateHandler (Status ''Logging in with the new account'')) (\<lambda>_.
     await (login w (AtpAgent newPdsUrl) usersDid password None) (\<lambda>_.
     await (whenFlag migrateRepo
              (migrateRepoToNewPds w statusUpdateHandler old (AtpAgent newPdsUrl) usersDid)) (\<lambda>_.
     return (old, usersDid))))))"

subsection \<open>\<^verbatim>\<open>migrate\<close>: the blobs\<close>

text \<open>The two awaited calls of a \<^verbatim>\<open>try\<close> block (lines 170 to 176 and 208 to 214).\<close>

definition transferBlob :: "world \<Rightarrow> agent \<Rightarrow> agent \<Rightarrow> did \<Rightarrow> cid \<Rightarrow> unit prog" where
  "transferBlob w old new usersDid c =
     await (com_atproto_sync_getBlob w old usersDid c) (\<lambda>blobRes.
     com_atproto_repo_uploadBlob w new (blobData blobRes) (contentType blobRes))"

text \<open>Lines 168 to 184: the \<^verbatim>\<open>for\<close> loop over a page. The \<^verbatim>\<open>catch\<close> only logs. The result is
  the counter \<^verbatim>\<open>uploadedBlobs\<close>.\<close>

fun uploadPage ::
    "world \<Rightarrow> bool \<Rightarrow> agent \<Rightarrow> agent \<Rightarrow> did \<Rightarrow> accountStatus \<Rightarrow> cid list \<Rightarrow> int \<Rightarrow> state
      \<Rightarrow> int \<times> state" where
  "uploadPage w statusUpdateHandler old new usersDid newAccountStatus []
       uploadedBlobs st = (uploadedBlobs, st)"
| "uploadPage w statusUpdateHandler old new usersDid newAccountStatus (c # rest)
       uploadedBlobs st =
     (case transferBlob w old new usersDid c st of
        (Inr _, st1) \<Rightarrow>
          uploadPage w statusUpdateHandler old new usersDid newAccountStatus rest
            (uploadedBlobs + 1)
            (if (uploadedBlobs + 1) mod 10 = 0 then
               safeStatusUpdate statusUpdateHandler
                 (MigratingBlobs (uploadedBlobs + 1) (expectedBlobs newAccountStatus)) st1
             else st1)
      | (Inl _, st1) \<Rightarrow>
          uploadPage w statusUpdateHandler old new usersDid newAccountStatus rest
            uploadedBlobs st1)"

text \<open>Lines 159 to 186: the \<^verbatim>\<open>do ... while (blobCursor)\<close> loop. It does not return when
  the source never stops handing out a cursor.\<close>

partial_function (option) migrateBlobsLoop ::
    "world \<Rightarrow> bool \<Rightarrow> agent \<Rightarrow> agent \<Rightarrow> did \<Rightarrow> accountStatus \<Rightarrow> cursor \<Rightarrow> int \<Rightarrow> state
      \<Rightarrow> ((error + unit) \<times> state) option" where
  "migrateBlobsLoop w statusUpdateHandler old new usersDid newAccountStatus
       blobCursor uploadedBlobs st =
     (case com_atproto_sync_listBlobs w old usersDid blobCursor 100
             (safeStatusUpdate statusUpdateHandler
                (MigratingBlobs uploadedBlobs (expectedBlobs newAccountStatus)) st) of
        (Inl e, st1) \<Rightarrow> Some (Inl e, st1)
      | (Inr listed, st1) \<Rightarrow>
          (case uploadPage w statusUpdateHandler old new usersDid newAccountStatus
                  (cids listed) uploadedBlobs st1 of
             (uploadedBlobs', st2) \<Rightarrow>
               if truthyString (blobsCursor listed) then
                 migrateBlobsLoop w statusUpdateHandler old new usersDid
                   newAccountStatus (blobsCursor listed) uploadedBlobs' st2
               else Some (Inr (), st2)))"

text \<open>Lines 154 to 187.\<close>

definition migrateBlobsPhase ::
    "world \<Rightarrow> bool \<Rightarrow> agent \<Rightarrow> agent \<Rightarrow> did \<Rightarrow> accountStatus \<Rightarrow> state
      \<Rightarrow> ((error + unit) \<times> state) option" where
  "migrateBlobsPhase w statusUpdateHandler old new usersDid newAccountStatus st =
     (if migrateBlobs st then
        migrateBlobsLoop w statusUpdateHandler old new usersDid newAccountStatus
          None 0 (safeStatusUpdate statusUpdateHandler (Status ''Migrating your blobs'') st)
      else Some (Inr (), st))"

text \<open>Lines 205 to 224: the \<^verbatim>\<open>for\<close> loop over a page of missing blobs. The \<^verbatim>\<open>catch\<close> pushes
  the cid on \<^verbatim>\<open>this.missingBlobs\<close>. The progress test reads the counter before it is
  incremented.\<close>

fun retryPage ::
    "world \<Rightarrow> bool \<Rightarrow> agent \<Rightarrow> agent \<Rightarrow> did \<Rightarrow> int \<Rightarrow> recordBlob list \<Rightarrow> int \<Rightarrow> state
      \<Rightarrow> int \<times> state" where
  "retryPage w statusUpdateHandler old new usersDid totalMissingBlobs []
       missingUploadedBlobs st = (missingUploadedBlobs, st)"
| "retryPage w statusUpdateHandler old new usersDid totalMissingBlobs (rb # rest)
       missingUploadedBlobs st =
     (case transferBlob w old new usersDid (blobCid rb) st of
        (Inr _, st1) \<Rightarrow>
          retryPage w statusUpdateHandler old new usersDid totalMissingBlobs rest
            (missingUploadedBlobs + 1)
            (if missingUploadedBlobs mod 10 = 0 then
               safeStatusUpdate statusUpdateHandler
                 (MigratingBlobs missingUploadedBlobs totalMissingBlobs) st1
             else st1)
      | (Inl _, st1) \<Rightarrow>
          retryPage w statusUpdateHandler old new usersDid totalMissingBlobs rest
            missingUploadedBlobs (st1\<lparr>missingBlobs := missingBlobs st1 @ [blobCid rb]\<rparr>))"

text \<open>Lines 197 to 226.\<close>

partial_function (option) migrateMissingBlobsLoop ::
    "world \<Rightarrow> bool \<Rightarrow> agent \<Rightarrow> agent \<Rightarrow> did \<Rightarrow> int \<Rightarrow> cursor \<Rightarrow> int \<Rightarrow> state
      \<Rightarrow> ((error + unit) \<times> state) option" where
  "migrateMissingBlobsLoop w statusUpdateHandler old new usersDid totalMissingBlobs
       missingBlobCursor missingUploadedBlobs st =
     (case com_atproto_repo_listMissingBlobs w new missingBlobCursor 100
             (safeStatusUpdate statusUpdateHandler
                (MigratingBlobs missingUploadedBlobs totalMissingBlobs) st) of
        (Inl e, st1) \<Rightarrow> Some (Inl e, st1)
      | (Inr page, st1) \<Rightarrow>
          (case retryPage w statusUpdateHandler old new usersDid totalMissingBlobs
                  (blobs page) missingUploadedBlobs st1 of
             (missingUploadedBlobs', st2) \<Rightarrow>
               if truthyString (missingCursor page) then
                 migrateMissingBlobsLoop w statusUpdateHandler old new usersDid
                   totalMissingBlobs (missingCursor page) missingUploadedBlobs' st2
               else Some (Inr (), st2)))"

declare migrateBlobsLoop.simps [code] migrateMissingBlobsLoop.simps [code]

text \<open>Lines 189 to 229.\<close>

definition migrateMissingBlobsPhase ::
    "world \<Rightarrow> bool \<Rightarrow> agent \<Rightarrow> agent \<Rightarrow> did \<Rightarrow> state \<Rightarrow> ((error + unit) \<times> state) option" where
  "migrateMissingBlobsPhase w statusUpdateHandler old new usersDid st =
     (if migrateMissingBlobs st then
        (case com_atproto_server_checkAccountStatus w new st of
           (Inl e, st1) \<Rightarrow> Some (Inl e, st1)
         | (Inr newAccountStatus, st1) \<Rightarrow>
             if expectedBlobs newAccountStatus \<noteq> importedBlobs newAccountStatus then
               migrateMissingBlobsLoop w statusUpdateHandler old new usersDid
                 (expectedBlobs newAccountStatus - importedBlobs newAccountStatus) None 0
                 (safeStatusUpdate statusUpdateHandler (Status
                    ''Looks like there are some missing blobs. Going to try and upload them now.'')
                    st1)
             else Some (Inr (), st1))
      else Some (Inr (), st))"

subsection \<open>\<^verbatim>\<open>migrate\<close>: preferences, the stored agents and the PLC token\<close>

text \<open>Lines 230 to 241.\<close>

definition migrateFinish :: "world \<Rightarrow> bool \<Rightarrow> agent \<Rightarrow> agent \<Rightarrow> unit prog" where
  "migrateFinish w statusUpdateHandler old new =
     await (whenFlag migratePrefs
              (await (app_bsky_actor_getPreferences w old) (\<lambda>prefs.
               app_bsky_actor_putPreferences w new prefs))) (\<lambda>_.
     await (\<lambda>st. (Inr (), st\<lparr>oldAgent := Some old, newAgent := Some new\<rparr>)) (\<lambda>_.
     whenFlag migratePlcRecord
       (await (com_atproto_identity_requestPlcOperationSignature w old) (\<lambda>_.
        notify statusUpdateHandler (Status ''Please check your email for a PLC token'')))))"

text \<open>The method \<^verbatim>\<open>migrate\<close>, with the account status read of line 152 between the
  account and the blobs. \<open>None\<close>: one of the two blob loops does not return.\<close>

definition migrate ::
    "world \<Rightarrow> string \<Rightarrow> string \<Rightarrow> url \<Rightarrow> string \<Rightarrow> string \<Rightarrow> string option \<Rightarrow> bool \<Rightarrow> string option
      \<Rightarrow> state \<Rightarrow> ((error + unit) \<times> state) option" where
  "migrate w oldHandle password newPdsUrl newEmail newHandle inviteCode statusUpdateHandler
       twoFactorCode st =
     (case migrateAccount w (normalizeHandle oldHandle) password newPdsUrl newEmail newHandle
             inviteCode statusUpdateHandler twoFactorCode st of
        (Inl e, st1) \<Rightarrow> Some (Inl e, st1)
      | (Inr (old, usersDid), st1) \<Rightarrow>
      (case com_atproto_server_checkAccountStatus w (AtpAgent newPdsUrl) st1 of
        (Inl e, st2) \<Rightarrow> Some (Inl e, st2)
      | (Inr newAccountStatus, st2) \<Rightarrow>
      (case migrateBlobsPhase w statusUpdateHandler old (AtpAgent newPdsUrl) usersDid
              newAccountStatus st2 of
        None \<Rightarrow> None
      | Some (Inl e, st3) \<Rightarrow> Some (Inl e, st3)
      | Some (Inr _, st3) \<Rightarrow>
      (case migrateMissingBlobsPhase w statusUpdateHandler old (AtpAgent newPdsUrl) usersDid
              st3 of
        None \<Rightarrow> None
      | Some (Inl e, st4) \<Rightarrow> Some (Inl e, st4)
      | Some (Inr _, st4) \<Rightarrow>
          Some (migrateFinish w statusUpdateHandler old (AtpAgent newPdsUrl) st4)))))"

subsection \<open>\<^verbatim>\<open>signPlcOperation\<close>\<close>

text \<open>Lines 249 to 273. \<^verbatim>\<open>this.new\<close> and \<^verbatim>\<open>this.old\<close> are read where the source
  reads them; a read of \<^verbatim>\<open>.com\<close> on \<^verbatim>\<open>null\<close> throws a \<^verbatim>\<open>TypeError\<close>.\<close>

definition this_newAgent :: "agent prog" where
  "this_newAgent st = (case newAgent st of None \<Rightarrow> (Inl TypeError, st) | Some a \<Rightarrow> (Inr a, st))"

definition this_oldAgent :: "agent prog" where
  "this_oldAgent st = (case oldAgent st of None \<Rightarrow> (Inl TypeError, st) | Some a \<Rightarrow> (Inr a, st))"

definition signPlcOperation :: "world \<Rightarrow> string \<Rightarrow> unit prog" where
  "signPlcOperation w token =
     await this_newAgent (\<lambda>new.
     await (com_atproto_identity_getRecommendedDidCredentials w new) (\<lambda>getDidCredentials.
     if \<not> truthy (nullish (rotationKeys getDidCredentials) (Array [])) then
       throw (Error ''No rotation key provided from the new PDS'')
     else
       await this_oldAgent (\<lambda>old.
       await (com_atproto_identity_signPlcOperation w old token
                (getDidCredentials\<lparr>rotationKeys :=
                   nullish (rotationKeys getDidCredentials) (Array [])\<rparr>)) (\<lambda>operation.
       await this_newAgent (\<lambda>new'.
       await (com_atproto_identity_submitPlcOperation w new' operation) (\<lambda>_.
       await this_newAgent (\<lambda>new''.
       await (com_atproto_server_activateAccount w new'') (\<lambda>_.
       await this_oldAgent (\<lambda>old'.
       com_atproto_server_deactivateAccount w old')))))))))"

subsection \<open>\<^verbatim>\<open>deactivateOldAccount\<close>\<close>

text \<open>Lines 302 to 315: the scan of the PLC log. The third argument is
  \<^verbatim>\<open>pdsBeforeCurrent\<close>.\<close>

fun scanPlcLog :: "url \<Rightarrow> string option list \<Rightarrow> url \<Rightarrow> url" where
  "scanPlcLog currentPds [] pdsBeforeCurrent = pdsBeforeCurrent"
| "scanPlcLog currentPds (None # rest) pdsBeforeCurrent =
     scanPlcLog currentPds rest pdsBeforeCurrent"
| "scanPlcLog currentPds (Some pds # rest) pdsBeforeCurrent =
     (if toLowerCase pds = toLowerCase currentPds then pdsBeforeCurrent
      else scanPlcLog currentPds rest pds)"

text \<open>Lines 279 to 289.\<close>

definition resolveDid :: "world \<Rightarrow> bool \<Rightarrow> string \<Rightarrow> did prog" where
  "resolveDid w statusUpdateHandler oldHandle =
     (if endsWith oldHandle ''.bsky.social'' then
        publicAgent_resolveHandle w publicAgent oldHandle
      else
        await (notify statusUpdateHandler (Status ''Resolving did from handle'')) (\<lambda>_.
        handleResolver_resolve_call w oldHandle))"

text \<open>Lines 320 to 339, from the login on the prior PDS.\<close>

definition deactivateOn ::
    "world \<Rightarrow> bool \<Rightarrow> string \<Rightarrow> string \<Rightarrow> string option \<Rightarrow> url \<Rightarrow> url \<Rightarrow> unit prog" where
  "deactivateOn w statusUpdateHandler oldHandle oldPassword twoFactorCode currentPds
       pdsBeforeCurrent =
     await (notify statusUpdateHandler (LoggingInTo pdsBeforeCurrent)) (\<lambda>_.
     await (loginOld w (AtpAgent pdsBeforeCurrent) oldHandle oldPassword twoFactorCode) (\<lambda>_.
     await (notify statusUpdateHandler (Status ''Checking this isn't your current PDS'')) (\<lambda>_.
     if pdsBeforeCurrent = currentPds then
       throw (Error ''This is your current PDS. Login to your old account username and password'')
     else
       await (com_atproto_server_checkAccountStatus w (AtpAgent pdsBeforeCurrent)) (\<lambda>currentAccountStatus.
       await (if \<not> activated currentAccountStatus then
                notify statusUpdateHandler (Status ''All good. Your old account is not activated.'')
              else return ()) (\<lambda>_.
       await (notify statusUpdateHandler (Status ''Deactivating your OLD account'')) (\<lambda>_.
       await (com_atproto_server_deactivateAccount w (AtpAgent pdsBeforeCurrent)) (\<lambda>_.
       notify statusUpdateHandler (Status ''Successfully deactivated your OLD account''))))))))"

text \<open>Lines 302 to 339, from the scan of the log.\<close>

definition deactivatePrior ::
    "world \<Rightarrow> bool \<Rightarrow> string \<Rightarrow> string \<Rightarrow> string option \<Rightarrow> url \<Rightarrow> string option list
      \<Rightarrow> unit prog" where
  "deactivatePrior w statusUpdateHandler oldHandle oldPassword twoFactorCode currentPds plcLog =
     (if scanPlcLog currentPds plcLog [] = [] then
        throw (Error ''Could not find the PDS before the current one'')
      else
        deactivateOn w statusUpdateHandler oldHandle oldPassword twoFactorCode currentPds
          (scanPlcLog currentPds plcLog []))"

definition deactivateOldAccount ::
    "world \<Rightarrow> string \<Rightarrow> string \<Rightarrow> bool \<Rightarrow> string option \<Rightarrow> unit prog" where
  "deactivateOldAccount w oldHandle oldPassword statusUpdateHandler twoFactorCode =
     await (resolveDid w statusUpdateHandler (normalizeHandle oldHandle)) (\<lambda>usersDid.
     await (docResolver_resolve_call w usersDid) (\<lambda>doc.
     case findPds doc of
       None \<Rightarrow> throw (Error ''Could not find a PDS in the DID document.'')
     | Some currentPds \<Rightarrow>
         await (fetchPlcLog w usersDid) (\<lambda>plcLog.
         deactivatePrior w statusUpdateHandler (normalizeHandle oldHandle) oldPassword
           twoFactorCode currentPds plcLog)))"

subsection \<open>Reading the log\<close>

fun request_of :: "event \<Rightarrow> request" where
  "request_of (Ok rq) = rq"
| "request_of (Failed rq) = rq"


text \<open>The calls a computation added to the log.\<close>

definition newEvents :: "state \<Rightarrow> state \<Rightarrow> event list" where
  "newEvents st st' = drop (length (trace st)) (trace st')"

fun isListBlobs :: "request \<Rightarrow> bool" where
  "isListBlobs (ListBlobs a d c n) = True"
| "isListBlobs _ = False"

fun isListMissingBlobs :: "request \<Rightarrow> bool" where
  "isListMissingBlobs (ListMissingBlobs a c n) = True"
| "isListMissingBlobs _ = False"

fun isImportRepo :: "request \<Rightarrow> bool" where
  "isImportRepo (ImportRepo a car enc) = True"
| "isImportRepo _ = False"

fun isDeactivateAccount :: "request \<Rightarrow> bool" where
  "isDeactivateAccount (DeactivateAccount a) = True"
| "isDeactivateAccount _ = False"

fun isRequestPlcOperationSignature :: "request \<Rightarrow> bool" where
  "isRequestPlcOperationSignature (RequestPlcOperationSignature a) = True"
| "isRequestPlcOperationSignature _ = False"

fun fetchedCid :: "request \<Rightarrow> cid list" where
  "fetchedCid (GetBlob a d c) = [c]"
| "fetchedCid _ = []"

text \<open>The listing calls of a log, in order.\<close>

definition listingCalls :: "event list \<Rightarrow> request list" where
  "listingCalls evs = filter isListBlobs (map request_of evs)"

text \<open>The attachments whose transfer was attempted, in order: one entry for each
  \<^verbatim>\<open>getBlob\<close> call.\<close>

definition attempted :: "event list \<Rightarrow> cid list" where
  "attempted evs = concat (map (\<lambda>e. fetchedCid (request_of e)) evs)"

fun isUploaded :: "event \<Rightarrow> bool" where
  "isUploaded (Ok (UploadBlob a bytes enc)) = True"
| "isUploaded _ = False"

text \<open>The number of uploads that returned.\<close>

definition uploaded :: "event list \<Rightarrow> nat" where
  "uploaded evs = length (filter isUploaded evs)"

text \<open>The transfers that failed, in order: a \<^verbatim>\<open>getBlob\<close> that threw, or an \<^verbatim>\<open>uploadBlob\<close>
  that threw right after the \<^verbatim>\<open>getBlob\<close> of the same attachment returned. The first
  argument is the attachment fetched by the call just before, if that was a fetch that
  returned.\<close>

fun failedFrom :: "cid option \<Rightarrow> event list \<Rightarrow> cid list" where
  "failedFrom fetched [] = []"
| "failedFrom fetched (Failed (GetBlob a d c) # evs) = c # failedFrom None evs"
| "failedFrom fetched (Ok (GetBlob a d c) # evs) = failedFrom (Some c) evs"
| "failedFrom (Some c) (Failed (UploadBlob a bytes enc) # evs) = c # failedFrom None evs"
| "failedFrom fetched (ev # evs) = failedFrom None evs"


text \<open>The calls that \<^verbatim>\<open>migrate\<close> makes up to line 150, in the blob loop of lines 154 to
  187, and from line 230 on.\<close>

fun accountCall :: "request \<Rightarrow> bool" where
  "accountCall (ResolveHandle a hdl) = True"
| "accountCall (HandleResolverResolve hdl) = True"
| "accountCall (DocResolverResolve d) = True"
| "accountCall (Login a i p t) = True"
| "accountCall (DescribeServer a) = True"
| "accountCall (GetServiceAuth a aud lxm) = True"
| "accountCall (CreateAccount a d hdl em p ic au) = True"
| "accountCall (GetRepo a d) = True"
| "accountCall (ImportRepo a car enc) = True"
| "accountCall _ = False"

fun blobCall :: "request \<Rightarrow> bool" where
  "blobCall (ListBlobs a d c n) = True"
| "blobCall (GetBlob a d c) = True"
| "blobCall (UploadBlob a bytes enc) = True"
| "blobCall _ = False"

fun finishCall :: "request \<Rightarrow> bool" where
  "finishCall (GetPreferences a) = True"
| "finishCall (PutPreferences a prefs) = True"
| "finishCall (RequestPlcOperationSignature a) = True"
| "finishCall _ = False"

subsection \<open>Relations between the state before and the state after\<close>

text \<open>A relation that every step of a computation respects is respected by the
  computation: reflexive, transitive, and blind to the status messages.\<close>

definition framed :: "(state \<Rightarrow> state \<Rightarrow> bool) \<Rightarrow> bool" where
  "framed R \<longleftrightarrow>
     (\<forall>st. R st st) \<and> (\<forall>a b c. R a b \<longrightarrow> R b c \<longrightarrow> R a c) \<and>
     (\<forall>st s. R st (st\<lparr>statuses := s\<rparr>))"

text \<open>The relation holds across the logging of a call, whatever its outcome.\<close>

definition logs :: "(state \<Rightarrow> state \<Rightarrow> bool) \<Rightarrow> request \<Rightarrow> bool" where
  "logs R rq \<longleftrightarrow>
     (\<forall>st. R st (st\<lparr>trace := trace st @ [Ok rq]\<rparr>) \<and> R st (st\<lparr>trace := trace st @ [Failed rq]\<rparr>))"

text \<open>The relation holds across a push on \<^verbatim>\<open>this.missingBlobs\<close>.\<close>

definition growing :: "(state \<Rightarrow> state \<Rightarrow> bool) \<Rightarrow> bool" where
  "growing R \<longleftrightarrow> (\<forall>st x. R st (st\<lparr>missingBlobs := missingBlobs st @ [x]\<rparr>))"

text \<open>The relation holds across the two assignments of lines 235 and 236.\<close>

definition storing :: "(state \<Rightarrow> state \<Rightarrow> bool) \<Rightarrow> bool" where
  "storing R \<longleftrightarrow> (\<forall>st a b. R st (st\<lparr>oldAgent := a, newAgent := b\<rparr>))"

definition keeps :: "(state \<Rightarrow> state \<Rightarrow> bool) \<Rightarrow> 'a prog \<Rightarrow> bool" where
  "keeps R m \<longleftrightarrow> (\<forall>st. R st (snd (m st)))"

text \<open>What holds of the outcome of a computation started in a given state, and what
  holds of it if it holds of the outcome of the continuation.\<close>

definition post :: "'a prog \<Rightarrow> state \<Rightarrow> ((error + 'a) \<Rightarrow> state \<Rightarrow> bool) \<Rightarrow> bool" where
  "post m st Q \<longleftrightarrow> Q (fst (m st)) (snd (m st))"

definition cont ::
    "('a \<Rightarrow> 'b prog) \<Rightarrow> ((error + 'b) \<Rightarrow> state \<Rightarrow> bool) \<Rightarrow> (error + 'a) \<Rightarrow> state \<Rightarrow> bool" where
  "cont k Q r st = (case r of Inl e \<Rightarrow> Q (Inl e) st | Inr x \<Rightarrow> post (k x) st Q)"

text \<open>The relations used below: the list of missing blobs only grows at its end; the
  stored agents stay; the fields of the instance stay; the log only grows, by calls outside
  a given class.\<close>

definition appendOnly :: "state \<Rightarrow> state \<Rightarrow> bool" where
  "appendOnly st st' \<longleftrightarrow> (\<exists>added. missingBlobs st' = missingBlobs st @ added)"

definition sameAgents :: "state \<Rightarrow> state \<Rightarrow> bool" where
  "sameAgents st st' \<longleftrightarrow> oldAgent st' = oldAgent st \<and> newAgent st' = newAgent st"

definition untouched :: "state \<Rightarrow> state \<Rightarrow> bool" where
  "untouched st st' \<longleftrightarrow>
     oldAgent st' = oldAgent st \<and> newAgent st' = newAgent st \<and>
     missingBlobs st' = missingBlobs st \<and> createNewAccount st' = createNewAccount st \<and>
     migrateRepo st' = migrateRepo st \<and> migrateBlobs st' = migrateBlobs st \<and>
     migrateMissingBlobs st' = migrateMissingBlobs st \<and> migratePrefs st' = migratePrefs st \<and>
     migratePlcRecord st' = migratePlcRecord st"

definition avoiding :: "(request \<Rightarrow> bool) \<Rightarrow> state \<Rightarrow> state \<Rightarrow> bool" where
  "avoiding K st st' \<longleftrightarrow>
     (\<exists>evs. trace st' = trace st @ evs \<and> (\<forall>e \<in> set evs. \<not> K (request_of e)))"

text \<open>A stretch of log made of whole transfers: the failed transfers of a log that starts
  with it are its own, followed by those of the rest.\<close>

definition settled :: "event list \<Rightarrow> bool" where
  "settled evs \<longleftrightarrow>
     (\<forall>rest. failedFrom None (evs @ rest) = failedFrom None evs @ failedFrom None rest)"





fun resolutionCall :: "request \<Rightarrow> bool" where
  "resolutionCall (ResolveHandle a hdl) = True"
| "resolutionCall (HandleResolverResolve hdl) = True"
| "resolutionCall (DocResolverResolve d) = True"
| "resolutionCall _ = False"

fun handoverRunCall :: "request \<Rightarrow> bool" where
  "handoverRunCall (ResolveHandle a hdl) = True"
| "handoverRunCall (HandleResolverResolve hdl) = True"
| "handoverRunCall (DocResolverResolve d) = True"
| "handoverRunCall (Login a i p t) = True"
| "handoverRunCall (DescribeServer a) = True"
| "handoverRunCall (CheckAccountStatus a) = True"
| "handoverRunCall (RequestPlcOperationSignature a) = True"
| "handoverRunCall _ = False"

subsection \<open>A source that serves a paginated listing\<close>



subsection \<open>Example services and instances\<close>

text \<open>Services that accept every call.\<close>

definition quietWorld :: world where
  "quietWorld =
     \<lparr>identity_resolveHandle = (\<lambda>l a hdl. Inr ''did:plc:alice''),
      handleResolver_resolve = (\<lambda>l hdl. Inr ''did:plc:alice''),
      docResolver_resolve = (\<lambda>l d. Inr \<lparr>service = Some
         [\<lparr>serviceType = ''AtprotoPersonalDataServer'',
           serviceEndpoint = ''https://old.example''\<rparr>]\<rparr>),
      agent_login = (\<lambda>l a i p t. Inr ()),
      server_describeServer = (\<lambda>l a. Inr ''did:web:new.example''),
      server_getServiceAuth = (\<lambda>l a aud lxm. Inr ''jwt''),
      server_createAccount = (\<lambda>l a d hdl em p ic au. Inr d),
      sync_getRepo = (\<lambda>l a d. Inr ''car''),
      repo_importRepo = (\<lambda>l a car enc. Inr ()),
      server_checkAccountStatus =
        (\<lambda>l a. Inr \<lparr>activated = True, expectedBlobs = 0, importedBlobs = 0\<rparr>),
      sync_listBlobs = (\<lambda>l a d c n. Inr \<lparr>cids = [], blobsCursor = None\<rparr>),
      sync_getBlob = (\<lambda>l a d c. Inr \<lparr>blobData = c, contentType = Some ''image/png''\<rparr>),
      repo_uploadBlob = (\<lambda>l a bytes enc. Inr ()),
      repo_listMissingBlobs = (\<lambda>l a c n. Inr \<lparr>blobs = [], missingCursor = None\<rparr>),
      actor_getPreferences = (\<lambda>l a. Inr ''prefs''),
      actor_putPreferences = (\<lambda>l a prefs. Inr ()),
      identity_requestPlcOperationSignature = (\<lambda>l a. Inr ()),
      identity_getRecommendedDidCredentials =
        (\<lambda>l a. Inr \<lparr>rotationKeys = Array [''did:key:k''], otherCredentials = ''{}''\<rparr>),
      identity_signPlcOperation = (\<lambda>l a token creds. Inr ''op''),
      identity_submitPlcOperation = (\<lambda>l a operation. Inr ()),
      server_activateAccount = (\<lambda>l a. Inr ()),
      server_deactivateAccount = (\<lambda>l a. Inr ()),
      fetch_plcLog = (\<lambda>l u. Inr [Some ''https://a.example'', Some ''https://b.example'',
         Some ''https://old.example''])\<rparr>"

text \<open>A destination whose recommended credentials have no \<^verbatim>\<open>rotationKeys\<close> field.\<close>

definition noRotationKeysWorld :: world where
  "noRotationKeysWorld =
     quietWorld\<lparr>identity_getRecommendedDidCredentials :=
       (\<lambda>l a. Inr \<lparr>rotationKeys = Undefined, otherCredentials = ''{}''\<rparr>)\<rparr>"


text \<open>A source with one blob that it fails to serve, and a destination that misses this
  blob for two records.\<close>

definition brokenBlobWorld :: world where
  "brokenBlobWorld =
     quietWorld\<lparr>
       server_checkAccountStatus :=
         (\<lambda>l a. Inr \<lparr>activated = True, expectedBlobs = 1, importedBlobs = 0\<rparr>),
       sync_listBlobs := (\<lambda>l a d c n. Inr \<lparr>cids = [''bafy1''], blobsCursor = None\<rparr>),
       sync_getBlob := (\<lambda>l a d c. Inl ''InternalServerError''),
       repo_listMissingBlobs := (\<lambda>l a c n. Inr \<lparr>blobs =
          [\<lparr>blobCid = ''bafy1'', recordUri = ''at://did:plc:alice/app.bsky.feed.post/1''\<rparr>,
           \<lparr>blobCid = ''bafy1'', recordUri = ''at://did:plc:alice/app.bsky.feed.post/2''\<rparr>],
          missingCursor = None\<rparr>)\<rparr>"

text \<open>A source that fails to hand out the preferences.\<close>

definition brokenPrefsWorld :: world where
  "brokenPrefsWorld = quietWorld\<lparr>actor_getPreferences := (\<lambda>l a. Inl ''InternalServerError'')\<rparr>"



text \<open>An instance set up for a rerun that only requests the PLC token, and an instance
  on which \<^verbatim>\<open>migrate\<close> has stored its agents.\<close>

definition handoverOnly :: state where
  "handoverOnly =
     Migrator\<lparr>createNewAccount := False, migrateRepo := False, migrateBlobs := False,
       migrateMissingBlobs := False, migratePrefs := False\<rparr>"

definition migrated :: state where
  "migrated =
     Migrator\<lparr>oldAgent := Some (AtpAgent ''https://old.example''),
       newAgent := Some (AtpAgent ''https://new.example'')\<rparr>"

section \<open>Properties\<close>

subsection \<open>Basic facts\<close>

lemmas call_defs =
  publicAgent_resolveHandle_def handleResolver_resolve_call_def docResolver_resolve_call_def
  login_def com_atproto_server_describeServer_def com_atproto_server_getServiceAuth_def
  com_atproto_server_createAccount_def com_atproto_sync_getRepo_def
  com_atproto_repo_importRepo_def com_atproto_server_checkAccountStatus_def
  com_atproto_sync_listBlobs_def com_atproto_sync_getBlob_def com_atproto_repo_uploadBlob_def
  com_atproto_repo_listMissingBlobs_def app_bsky_actor_getPreferences_def
  app_bsky_actor_putPreferences_def com_atproto_identity_requestPlcOperationSignature_def
  com_atproto_identity_getRecommendedDidCredentials_def
  com_atproto_identity_signPlcOperation_def com_atproto_identity_submitPlcOperation_def
  com_atproto_server_activateAccount_def com_atproto_server_deactivateAccount_def
  fetchPlcLog_def

lemma safeStatusUpdate_fields [simp]:
  "trace (safeStatusUpdate h s st) = trace st"
  "oldAgent (safeStatusUpdate h s st) = oldAgent st"
  "newAgent (safeStatusUpdate h s st) = newAgent st"
  "missingBlobs (safeStatusUpdate h s st) = missingBlobs st"
  "createNewAccount (safeStatusUpdate h s st) = createNewAccount st"
  "migrateRepo (safeStatusUpdate h s st) = migrateRepo st"
  "migrateBlobs (safeStatusUpdate h s st) = migrateBlobs st"
  "migrateMissingBlobs (safeStatusUpdate h s st) = migrateMissingBlobs st"
  "migratePrefs (safeStatusUpdate h s st) = migratePrefs st"
  "migratePlcRecord (safeStatusUpdate h s st) = migratePlcRecord st"
  by (simp_all add: safeStatusUpdate_def)

lemma newEvents_append: "trace st' = trace st @ evs \<Longrightarrow> newEvents st st' = evs"
  by (simp add: newEvents_def)

lemma newEvents_chain:
  assumes "trace st1 = trace st @ a" and "trace st2 = trace st1 @ b"
  shows "newEvents st st2 = a @ b"
  using assms by (simp add: newEvents_def)

lemma newEvents_self [simp]: "newEvents st st = []"
  by (simp add: newEvents_def)

subsection \<open>Computations respect framed relations\<close>

lemma framed_refl: "framed R \<Longrightarrow> R st st"
  by (simp add: framed_def)

lemma framed_trans: "framed R \<Longrightarrow> R a b \<Longrightarrow> R b c \<Longrightarrow> R a c"
  unfolding framed_def by blast

lemma framed_safeStatusUpdate: "framed R \<Longrightarrow> R st (safeStatusUpdate h s st)"
  by (simp add: framed_def safeStatusUpdate_def)

lemma keepsD: "keeps R m \<Longrightarrow> R st (snd (m st))"
  by (simp add: keeps_def)

lemma keeps_await:
  assumes F: "framed R" and m: "keeps R m" and k: "\<And>x. keeps R (k x)"
  shows "keeps R (await m k)"
  unfolding keeps_def
proof
  fix st
  obtain r st1 where ms: "m st = (r, st1)"
    by (cases "m st")
  have R1: "R st st1"
    using keepsD [OF m, of st] ms by simp
  show "R st (snd (await m k st))"
  proof (cases r)
    case (Inl e)
    then show ?thesis using ms R1 by (simp add: await_def)
  next
    case (Inr x)
    have "R st1 (snd (k x st1))"
      by (rule keepsD [OF k])
    then show ?thesis
      using ms Inr framed_trans [OF F R1] by (simp add: await_def)
  qed
qed

lemma keeps_return: "framed R \<Longrightarrow> keeps R (return x)"
  by (simp add: keeps_def return_def framed_def)

lemma keeps_throw: "framed R \<Longrightarrow> keeps R (throw e)"
  by (simp add: keeps_def throw_def framed_def)

lemma keeps_perform: "logs R rq \<Longrightarrow> keeps R (perform r rq)"
  by (simp add: keeps_def perform_def logs_def split: sum.splits)

lemma keeps_notify: "framed R \<Longrightarrow> keeps R (notify h s)"
  by (simp add: keeps_def notify_def framed_safeStatusUpdate)

lemma keeps_whenFlag: "framed R \<Longrightarrow> keeps R m \<Longrightarrow> keeps R (whenFlag f m)"
  by (simp add: keeps_def whenFlag_def framed_def)

lemma keeps_if: "keeps R a \<Longrightarrow> keeps R b \<Longrightarrow> keeps R (if c then a else b)"
  by simp

lemma keeps_case_option:
  "keeps R a \<Longrightarrow> (\<And>x. keeps R (b x)) \<Longrightarrow> keeps R (case v of None \<Rightarrow> a | Some x \<Rightarrow> b x)"
  by (simp split: option.splits)

lemma keeps_case_prod:
  "(\<And>a b. keeps R (f a b)) \<Longrightarrow> keeps R (case p of (a, b) \<Rightarrow> f a b)"
  by (simp split: prod.splits)

lemma keeps_this_agents:
  "framed R \<Longrightarrow> keeps R this_newAgent" "framed R \<Longrightarrow> keeps R this_oldAgent"
  by (simp_all add: keeps_def this_newAgent_def this_oldAgent_def framed_def split: option.splits)

lemmas keeps_intros =
  keeps_await keeps_return keeps_throw keeps_perform keeps_notify keeps_whenFlag keeps_if
  keeps_case_option keeps_case_prod keeps_this_agents

lemma keeps_migrateAccount:
  assumes "framed R" and "\<And>rq. accountCall rq \<Longrightarrow> logs R rq"
  shows "keeps R (migrateAccount w oh pw nu ne nh ic h tf)"
  unfolding migrateAccount_def prepareAgents_def resolveOldAgent_def loginOld_def
    createAccountOnNewPds_def migrateRepoToNewPds_def call_defs
  by (intro keeps_intros assms; simp)

lemma keeps_transferBlob:
  assumes "framed R" and "\<And>rq. blobCall rq \<Longrightarrow> logs R rq"
  shows "keeps R (transferBlob w old new did c)"
  unfolding transferBlob_def call_defs
  by (intro keeps_intros assms; simp)

lemma keeps_migrateFinish:
  assumes "framed R" and "\<And>rq. finishCall rq \<Longrightarrow> logs R rq" and "storing R"
  shows "keeps R (migrateFinish w h old new)"
  unfolding migrateFinish_def call_defs
  apply (intro keeps_intros assms; (simp; fail)?)
  using assms(3) by (simp add: keeps_def storing_def)

lemma keeps_signPlcOperation:
  assumes "framed R" and "\<And>rq. logs R rq"
  shows "keeps R (signPlcOperation w token)"
  unfolding signPlcOperation_def call_defs
  by (intro keeps_intros assms)

lemma keeps_deactivateOldAccount:
  assumes "framed R" and "\<And>rq. logs R rq"
  shows "keeps R (deactivateOldAccount w oh pw h tf)"
  unfolding deactivateOldAccount_def deactivatePrior_def deactivateOn_def resolveDid_def
    loginOld_def call_defs
  by (intro keeps_intros assms)


subsection \<open>The pages and the loops\<close>

lemma keeps_uploadPage:
  assumes F: "framed R" and B: "\<And>rq. blobCall rq \<Longrightarrow> logs R rq"
  shows "R st (snd (uploadPage w h old new did status cs n st))"
proof (induction cs arbitrary: n st)
  case Nil
  show ?case by (simp add: framed_refl [OF F])
next
  case (Cons c cs)
  obtain r st1 where t: "transferBlob w old new did c st = (r, st1)"
    by (cases "transferBlob w old new did c st")
  have R1: "R st st1"
    using keepsD [OF keeps_transferBlob [OF F B, of w old new did c], of st] t by simp
  show ?case
  proof (cases r)
    case (Inl e)
    then show ?thesis
      using t framed_trans [OF F R1 Cons.IH] by simp
  next
    case (Inr u)
    have R2: "R st (safeStatusUpdate h s st1)" for s
      by (rule framed_trans [OF F R1 framed_safeStatusUpdate [OF F]])
    show ?thesis
      using t Inr framed_trans [OF F R1 Cons.IH] framed_trans [OF F R2 Cons.IH]
      by simp
  qed
qed

lemma keeps_retryPage:
  assumes F: "framed R" and B: "\<And>rq. blobCall rq \<Longrightarrow> logs R rq" and G: "growing R"
  shows "R st (snd (retryPage w h old new did tot rbs n st))"
proof (induction rbs arbitrary: n st)
  case Nil
  show ?case by (simp add: framed_refl [OF F])
next
  case (Cons rb rbs)
  obtain r st1 where t: "transferBlob w old new did (blobCid rb) st = (r, st1)"
    by (cases "transferBlob w old new did (blobCid rb) st")
  have R1: "R st st1"
    using keepsD [OF keeps_transferBlob [OF F B, of w old new did "blobCid rb"], of st] t
    by simp
  show ?case
  proof (cases r)
    case (Inl e)
    have "R st1 (st1\<lparr>missingBlobs := missingBlobs st1 @ [blobCid rb]\<rparr>)"
      using G by (simp add: growing_def)
    then have R2: "R st (st1\<lparr>missingBlobs := missingBlobs st1 @ [blobCid rb]\<rparr>)"
      by (rule framed_trans [OF F R1])
    show ?thesis
      using t Inl framed_trans [OF F R2 Cons.IH] by simp
  next
    case (Inr u)
    have R2: "R st (safeStatusUpdate h s st1)" for s
      by (rule framed_trans [OF F R1 framed_safeStatusUpdate [OF F]])
    show ?thesis
      using t Inr framed_trans [OF F R1 Cons.IH] framed_trans [OF F R2 Cons.IH]
      by simp
  qed
qed

text \<open>A loop that returns is a chain of pages: what the status message, a listing call
  and a page respect, the loop respects.\<close>

lemma migrateBlobsLoop_rule:
  assumes F: "framed R"
    and listing: "\<And>w old did st c. R st (snd (com_atproto_sync_listBlobs w old did c 100 st))"
    and page: "\<And>w h old new did status st cs n.
      R st (snd (uploadPage w h old new did status cs n st))"
    and L: "migrateBlobsLoop w h old new did status c n st = Some y"
  shows "R st (snd y)"
proof (rule migrateBlobsLoop.raw_induct
    [where P = "\<lambda>_ _ _ _ _ _ _ _ st y. R st (snd y)", OF _ L], goal_cases)
  case (1 loop w h old new did status c n st y)
  define st0 where "st0 = safeStatusUpdate h (MigratingBlobs n (expectedBlobs status)) st"
  obtain r st1 where l: "com_atproto_sync_listBlobs w old did c 100 st0 = (r, st1)"
    by (cases "com_atproto_sync_listBlobs w old did c 100 st0")
  have R0: "R st st0"
    unfolding st0_def by (rule framed_safeStatusUpdate [OF F])
  have "R st0 st1"
    using listing [of st0 w old did c] l by simp
  then have R1: "R st st1"
    by (rule framed_trans [OF F R0])
  show ?case
  proof (cases r)
    case (Inl e)
    then show ?thesis
      using 1(2) l R1 by (auto simp add: st0_def)
  next
    case (Inr listed)
    obtain n' st2 where u: "uploadPage w h old new did status (cids listed) n st1 = (n', st2)"
      by (cases "uploadPage w h old new did status (cids listed) n st1")
    have R2: "R st st2"
      using framed_trans [OF F R1 page [of st1 w h old new did status "cids listed" n]] u
      by simp
    show ?thesis
    proof (cases "truthyString (blobsCursor listed)")
      case True
      then have "loop w h old new did status (blobsCursor listed) n' st2 = Some y"
        using 1(2) l Inr u by (simp add: st0_def)
      from 1(1) [OF this] show ?thesis
        by (rule framed_trans [OF F R2])
    next
      case False
      then show ?thesis
        using 1(2) l Inr u R2 by (auto simp add: st0_def)
    qed
  qed
qed

lemma migrateMissingBlobsLoop_rule:
  assumes F: "framed R"
    and listing: "\<And>w new st c. R st (snd (com_atproto_repo_listMissingBlobs w new c 100 st))"
    and page: "\<And>w h old new did tot st rbs n.
      R st (snd (retryPage w h old new did tot rbs n st))"
    and L: "migrateMissingBlobsLoop w h old new did tot c n st = Some y"
  shows "R st (snd y)"
proof (rule migrateMissingBlobsLoop.raw_induct
    [where P = "\<lambda>_ _ _ _ _ _ _ _ st y. R st (snd y)", OF _ L], goal_cases)
  case (1 loop w h old new did tot c n st y)
  define st0 where "st0 = safeStatusUpdate h (MigratingBlobs n tot) st"
  obtain r st1 where l: "com_atproto_repo_listMissingBlobs w new c 100 st0 = (r, st1)"
    by (cases "com_atproto_repo_listMissingBlobs w new c 100 st0")
  have R0: "R st st0"
    unfolding st0_def by (rule framed_safeStatusUpdate [OF F])
  have "R st0 st1"
    using listing [of st0 w new c] l by simp
  then have R1: "R st st1"
    by (rule framed_trans [OF F R0])
  show ?case
  proof (cases r)
    case (Inl e)
    then show ?thesis
      using 1(2) l R1 by (auto simp add: st0_def)
  next
    case (Inr pg)
    obtain n' st2 where u: "retryPage w h old new did tot (blobs pg) n st1 = (n', st2)"
      by (cases "retryPage w h old new did tot (blobs pg) n st1")
    have R2: "R st st2"
      using framed_trans [OF F R1 page [of st1 w h old new did tot "blobs pg" n]] u
      by simp
    show ?thesis
    proof (cases "truthyString (missingCursor pg)")
      case True
      then have "loop w h old new did tot (missingCursor pg) n' st2 = Some y"
        using 1(2) l Inr u by (simp add: st0_def)
      from 1(1) [OF this] show ?thesis
        by (rule framed_trans [OF F R2])
    next
      case False
      then show ?thesis
        using 1(2) l Inr u R2 by (auto simp add: st0_def)
    qed
  qed
qed

lemma keeps_migrateBlobsPhase:
  assumes F: "framed R" and B: "\<And>rq. blobCall rq \<Longrightarrow> logs R rq"
    and L: "migrateBlobsPhase w h old new did status st = Some y"
  shows "R st (snd y)"
proof (cases "migrateBlobs st")
  case True
  have l: "R st (snd (com_atproto_sync_listBlobs w old did c 100 st))" for w old did c st
    unfolding call_defs by (rule keepsD [OF keeps_perform [OF B]]) simp
  have "R (safeStatusUpdate h (Status ''Migrating your blobs'') st) (snd y)"
    using L True
    by (auto simp: migrateBlobsPhase_def
        intro!: migrateBlobsLoop_rule [OF F l keeps_uploadPage [OF F B]])
  then show ?thesis
    by (rule framed_trans [OF F framed_safeStatusUpdate [OF F]])
next
  case False
  then show ?thesis
    using L by (auto simp: migrateBlobsPhase_def framed_refl [OF F])
qed

lemma keeps_migrateMissingBlobsPhase:
  assumes F: "framed R" and B: "\<And>rq. blobCall rq \<Longrightarrow> logs R rq" and G: "growing R"
    and S: "\<And>a. logs R (CheckAccountStatus a)" and M: "\<And>a c n. logs R (ListMissingBlobs a c n)"
    and L: "migrateMissingBlobsPhase w h old new did st = Some y"
  shows "R st (snd y)"
proof (cases "migrateMissingBlobs st")
  case True
  obtain r st1 where c: "com_atproto_server_checkAccountStatus w new st = (r, st1)"
    by (cases "com_atproto_server_checkAccountStatus w new st")
  have "keeps R (com_atproto_server_checkAccountStatus w new)"
    unfolding call_defs by (rule keeps_perform [OF S])
  from keepsD [OF this, of st] have R1: "R st st1"
    using c by simp
  have l: "R st (snd (com_atproto_repo_listMissingBlobs w new c 100 st))" for w new c st
    unfolding call_defs by (rule keepsD [OF keeps_perform [OF M]])
  show ?thesis
  proof (cases r)
    case (Inl e)
    then show ?thesis
      using L True c R1 by (auto simp: migrateMissingBlobsPhase_def)
  next
    case (Inr s)
    show ?thesis
    proof (cases "expectedBlobs s = importedBlobs s")
      case True
      then show ?thesis
        using L \<open>migrateMissingBlobs st\<close> c Inr R1 by (auto simp: migrateMissingBlobsPhase_def)
    next
      case False
      define st2 where "st2 = safeStatusUpdate h (Status
        ''Looks like there are some missing blobs. Going to try and upload them now.'') st1"
      have "migrateMissingBlobsLoop w h old new did (expectedBlobs s - importedBlobs s) None 0
          st2 = Some y"
        using L \<open>migrateMissingBlobs st\<close> c Inr False
        by (simp add: migrateMissingBlobsPhase_def st2_def)
      then have "R st2 (snd y)"
        by (auto intro!: migrateMissingBlobsLoop_rule [OF F l keeps_retryPage [OF F B G]])
      moreover have "R st st2"
        unfolding st2_def by (rule framed_trans [OF F R1 framed_safeStatusUpdate [OF F]])
      ultimately show ?thesis
        using framed_trans [OF F] by blast
    qed
  qed
next
  case False
  then show ?thesis
    using L by (auto simp: migrateMissingBlobsPhase_def framed_refl [OF F])
qed

lemma keeps_migrate:
  assumes F: "framed R" and A: "\<And>rq. logs R rq" and G: "growing R" and S: "storing R"
    and L: "migrate w oh pw nu ne nh ic h tf st = Some y"
  shows "R st (snd y)"
proof -
  obtain r st1 where a: "migrateAccount w (normalizeHandle oh) pw nu ne nh ic h tf st = (r, st1)"
    by (cases "migrateAccount w (normalizeHandle oh) pw nu ne nh ic h tf st")
  have "keeps R (migrateAccount w (normalizeHandle oh) pw nu ne nh ic h tf)"
    by (rule keeps_migrateAccount [OF F A])
  from keepsD [OF this, of st] have R1: "R st st1"
    using a by simp
  show ?thesis
  proof (cases r)
    case (Inl e)
    then show ?thesis using L a R1 by (auto simp: migrate_def)
  next
    case (Inr ctx)
    obtain old did where ctx: "ctx = (old, did)"
      by (cases ctx)
    obtain rs st2 where c: "com_atproto_server_checkAccountStatus w (AtpAgent nu) st1 = (rs, st2)"
      by (cases "com_atproto_server_checkAccountStatus w (AtpAgent nu) st1")
    have "keeps R (com_atproto_server_checkAccountStatus w (AtpAgent nu))"
      unfolding call_defs by (rule keeps_perform [OF A])
    from keepsD [OF this, of st1] have R2: "R st st2"
      using c framed_trans [OF F R1] by simp
    show ?thesis
    proof (cases rs)
      case (Inl e)
      then show ?thesis using L a Inr ctx c R2 by (auto simp: migrate_def)
    next
      case (Inr status)
      note rs = this
      show ?thesis
      proof (cases "migrateBlobsPhase w h old (AtpAgent nu) did status st2")
        case None
        then show ?thesis using L a \<open>r = Inr ctx\<close> ctx c rs by (simp add: migrate_def)
      next
        case (Some y3)
        note b = this
        obtain r3 st3 where y3: "y3 = (r3, st3)" by (cases y3)
        have R3: "R st st3"
          using framed_trans [OF F R2 keeps_migrateBlobsPhase [OF F A b]] y3 by simp
        show ?thesis
        proof (cases r3)
          case (Inl e)
          then show ?thesis
            using L a \<open>r = Inr ctx\<close> ctx c rs b y3 R3 by (auto simp: migrate_def)
        next
          case (Inr u)
          note r3 = this
          show ?thesis
          proof (cases "migrateMissingBlobsPhase w h old (AtpAgent nu) did st3")
            case None
            then show ?thesis
              using L a \<open>r = Inr ctx\<close> ctx c rs b y3 r3 by (simp add: migrate_def)
          next
            case (Some y4)
            obtain r4 st4 where y4: "y4 = (r4, st4)" by (cases y4)
            have R4: "R st st4"
              using framed_trans [OF F R3 keeps_migrateMissingBlobsPhase [OF F A G A A Some]] y4
              by simp
            have R5: "R st (snd (migrateFinish w h old (AtpAgent nu) st4))"
              by (rule framed_trans [OF F R4 keepsD [OF keeps_migrateFinish [OF F A S]]])
            show ?thesis
              using L a \<open>r = Inr ctx\<close> ctx c rs b y3 r3 Some y4 R4 R5
              by (cases r4) (auto simp: migrate_def)
          qed
        qed
      qed
    qed
  qed
qed

subsection \<open>The relations are framed\<close>

lemma appendOnly_framed: "framed appendOnly"
  unfolding framed_def appendOnly_def by auto

lemma appendOnly_logs: "logs appendOnly rq"
  unfolding logs_def appendOnly_def by simp

lemma appendOnly_growing: "growing appendOnly"
  unfolding growing_def appendOnly_def by simp

lemma appendOnly_storing: "storing appendOnly"
  unfolding storing_def appendOnly_def by simp

lemma sameAgents_framed: "framed sameAgents"
  unfolding framed_def sameAgents_def by auto

lemma sameAgents_logs: "logs sameAgents rq"
  unfolding logs_def sameAgents_def by simp

lemma sameAgents_growing: "growing sameAgents"
  unfolding growing_def sameAgents_def by simp

lemma avoiding_framed: "framed (avoiding K)"
  unfolding framed_def avoiding_def
proof (intro conjI allI impI)
  fix a b c
  assume "\<exists>evs. trace b = trace a @ evs \<and> (\<forall>e\<in>set evs. \<not> K (request_of e))"
    and "\<exists>evs. trace c = trace b @ evs \<and> (\<forall>e\<in>set evs. \<not> K (request_of e))"
  then obtain e1 e2 where "trace b = trace a @ e1" "\<forall>e\<in>set e1. \<not> K (request_of e)"
    "trace c = trace b @ e2" "\<forall>e\<in>set e2. \<not> K (request_of e)"
    by blast
  then have "trace c = trace a @ (e1 @ e2) \<and> (\<forall>e\<in>set (e1 @ e2). \<not> K (request_of e))"
    by auto
  then show "\<exists>evs. trace c = trace a @ evs \<and> (\<forall>e\<in>set evs. \<not> K (request_of e))"
    by blast
qed simp_all

lemma avoiding_logs: "\<not> K rq \<Longrightarrow> logs (avoiding K) rq"
  unfolding logs_def avoiding_def by simp

lemma avoiding_growing: "growing (avoiding K)"
  unfolding growing_def avoiding_def by simp

lemma avoiding_storing: "storing (avoiding K)"
  unfolding storing_def avoiding_def by simp

lemma avoidingD:
  "avoiding K st st' \<Longrightarrow> \<forall>e \<in> set (newEvents st st'). \<not> K (request_of e)"
  unfolding avoiding_def newEvents_def by auto

lemma avoiding_trace: "avoiding K st st' \<Longrightarrow> trace st' = trace st @ newEvents st st'"
  unfolding avoiding_def newEvents_def by auto

lemma migrateFinish_agents:
  assumes "migrateFinish w h old new st = (Inl e, st')"
    and "\<forall>ev \<in> set (newEvents st st'). \<not> isRequestPlcOperationSignature (request_of ev)"
  shows "sameAgents st st'"
  using assms
  unfolding migrateFinish_def
  by (auto simp: await_def call_defs perform_def whenFlag_def notify_def sameAgents_def newEvents_def
      split: sum.splits if_splits)

lemma migrate_cases:
  assumes "migrate w oh pw nu ne nh ic h tf st = Some (r, st')"
  obtains
    (account) e where
      "migrateAccount w (normalizeHandle oh) pw nu ne nh ic h tf st = (Inl e, st')" "r = Inl e"
  | (status) old did st1 e where
      "migrateAccount w (normalizeHandle oh) pw nu ne nh ic h tf st = (Inr (old, did), st1)"
      "com_atproto_server_checkAccountStatus w (AtpAgent nu) st1 = (Inl e, st')" "r = Inl e"
  | (blobs) old did st1 status st2 e where
      "migrateAccount w (normalizeHandle oh) pw nu ne nh ic h tf st = (Inr (old, did), st1)"
      "com_atproto_server_checkAccountStatus w (AtpAgent nu) st1 = (Inr status, st2)"
      "migrateBlobsPhase w h old (AtpAgent nu) did status st2 = Some (Inl e, st')" "r = Inl e"
  | (missing) old did st1 status st2 st3 e where
      "migrateAccount w (normalizeHandle oh) pw nu ne nh ic h tf st = (Inr (old, did), st1)"
      "com_atproto_server_checkAccountStatus w (AtpAgent nu) st1 = (Inr status, st2)"
      "migrateBlobsPhase w h old (AtpAgent nu) did status st2 = Some (Inr (), st3)"
      "migrateMissingBlobsPhase w h old (AtpAgent nu) did st3 = Some (Inl e, st')" "r = Inl e"
  | (finish) old did st1 status st2 st3 st4 where
      "migrateAccount w (normalizeHandle oh) pw nu ne nh ic h tf st = (Inr (old, did), st1)"
      "com_atproto_server_checkAccountStatus w (AtpAgent nu) st1 = (Inr status, st2)"
      "migrateBlobsPhase w h old (AtpAgent nu) did status st2 = Some (Inr (), st3)"
      "migrateMissingBlobsPhase w h old (AtpAgent nu) did st3 = Some (Inr (), st4)"
      "migrateFinish w h old (AtpAgent nu) st4 = (r, st')"
  using assms unfolding migrate_def
  by (auto split: prod.splits sum.splits option.splits)

text \<open>What the phases before line 230 respect.\<close>

lemma keeps_upto_status:
  assumes F: "framed R"
    and A: "\<And>rq. accountCall rq \<Longrightarrow> logs R rq" and S: "\<And>a. logs R (CheckAccountStatus a)"
    and 1: "migrateAccount w oh' pw nu ne nh ic h tf st = (r1, st1)"
    and 2: "com_atproto_server_checkAccountStatus w (AtpAgent nu) st1 = (r2, st2)"
  shows "R st st2"
proof -
  have "keeps R (migrateAccount w oh' pw nu ne nh ic h tf)"
    by (rule keeps_migrateAccount [OF F A])
  from keepsD [OF this, of st] have R1: "R st st1"
    using 1 by simp
  have "keeps R (com_atproto_server_checkAccountStatus w (AtpAgent nu))"
    unfolding call_defs by (rule keeps_perform [OF S])
  from keepsD [OF this, of st1] show "R st st2"
    using 2 framed_trans [OF F R1] by simp
qed

lemma keeps_upto_blobs:
  assumes F: "framed R"
    and A: "\<And>rq. accountCall rq \<Longrightarrow> logs R rq" and S: "\<And>a. logs R (CheckAccountStatus a)"
    and B: "\<And>rq. blobCall rq \<Longrightarrow> logs R rq"
    and 1: "migrateAccount w oh' pw nu ne nh ic h tf st = (r1, st1)"
    and 2: "com_atproto_server_checkAccountStatus w (AtpAgent nu) st1 = (r2, st2)"
    and 3: "migrateBlobsPhase w h old (AtpAgent nu) did status st2 = Some (r3, st3)"
  shows "R st st3"
  using framed_trans [OF F keeps_upto_status [OF F A S 1 2] keeps_migrateBlobsPhase [OF F B 3]]
  by simp

lemma keeps_upto_missing:
  assumes F: "framed R"
    and A: "\<And>rq. accountCall rq \<Longrightarrow> logs R rq" and S: "\<And>a. logs R (CheckAccountStatus a)"
    and B: "\<And>rq. blobCall rq \<Longrightarrow> logs R rq"
    and G: "growing R" and M: "\<And>a c n. logs R (ListMissingBlobs a c n)"
    and 1: "migrateAccount w oh' pw nu ne nh ic h tf st = (r1, st1)"
    and 2: "com_atproto_server_checkAccountStatus w (AtpAgent nu) st1 = (r2, st2)"
    and 3: "migrateBlobsPhase w h old (AtpAgent nu) did status st2 = Some (r3, st3)"
    and 4: "migrateMissingBlobsPhase w h old (AtpAgent nu) did st3 = Some (r4, st4)"
  shows "R st st4"
  using framed_trans [OF F keeps_upto_blobs [OF F A S B 1 2 3]
      keeps_migrateMissingBlobsPhase [OF F B G S M 4]]
  by simp

lemma newEvents_trans:
  "avoiding K st st1 \<Longrightarrow> avoiding K' st1 st' \<Longrightarrow>
    newEvents st st' = newEvents st st1 @ newEvents st1 st'"
  unfolding avoiding_def newEvents_def by auto

subsection \<open>Running a computation step by step\<close>

lemma post_await: "post m st (cont k Q) \<Longrightarrow> post (await m k) st Q"
  unfolding post_def cont_def await_def
  by (cases "m st") (auto split: sum.splits)

lemma cont_Inl: "Q (Inl e) st \<Longrightarrow> cont k Q (Inl e) st"
  by (simp add: cont_def)

lemma cont_Inr: "post (k x) st Q \<Longrightarrow> cont k Q (Inr x) st"
  by (simp add: cont_def)

lemma post_perform:
  assumes "\<And>msg. respond (trace st) = Inl msg \<Longrightarrow>
      Q (Inl (Remote msg)) (st\<lparr>trace := trace st @ [Failed rq]\<rparr>)"
    and "\<And>x. respond (trace st) = Inr x \<Longrightarrow> Q (Inr x) (st\<lparr>trace := trace st @ [Ok rq]\<rparr>)"
  shows "post (perform respond rq) st Q"
  using assms unfolding post_def perform_def by (cases "respond (trace st)") auto

lemma post_notify: "Q (Inr ()) (safeStatusUpdate h s st) \<Longrightarrow> post (notify h s) st Q"
  by (simp add: post_def notify_def)

lemma post_return: "Q (Inr x) st \<Longrightarrow> post (return x) st Q"
  by (simp add: post_def return_def)

lemma post_throw: "Q (Inl e) st \<Longrightarrow> post (throw e) st Q"
  by (simp add: post_def throw_def)

lemma post_whenFlag:
  "(flag st \<Longrightarrow> post m st Q) \<Longrightarrow> (\<not> flag st \<Longrightarrow> Q (Inr ()) st) \<Longrightarrow> post (whenFlag flag m) st Q"
  by (simp add: post_def whenFlag_def)

lemma post_if:
  "(c \<Longrightarrow> post a st Q) \<Longrightarrow> (\<not> c \<Longrightarrow> post b st Q) \<Longrightarrow> post (if c then a else b) st Q"
  by simp

lemma post_case_option:
  "(v = None \<Longrightarrow> post a st Q) \<Longrightarrow> (\<And>x. v = Some x \<Longrightarrow> post (b x) st Q) \<Longrightarrow>
    post (case v of None \<Rightarrow> a | Some x \<Rightarrow> b x) st Q"
  by (simp split: option.splits)

lemma post_case_prod: "post (f a b) st Q \<Longrightarrow> post (case (a, b) of (x, y) \<Rightarrow> f x y) st Q"
  by simp

lemmas post_intros =
  post_await cont_Inl cont_Inr post_perform post_notify post_return post_throw post_whenFlag
  post_if post_case_option post_case_prod

lemma postD: "post m st Q \<Longrightarrow> m st = (r, st') \<Longrightarrow> Q r st'"
  by (simp add: post_def)

subsection \<open>The account, the rerun and the reconciliation\<close>

lemma untouched_framed: "framed untouched"
  unfolding framed_def untouched_def by auto

lemma untouched_logs: "logs untouched rq"
  unfolding logs_def untouched_def by simp

lemma keeps_prepareAgents:
  assumes "framed R" and "\<And>rq. accountCall rq \<Longrightarrow> logs R rq"
  shows "keeps R (prepareAgents w oh pw nu h tf)"
  unfolding prepareAgents_def resolveOldAgent_def loginOld_def call_defs
  by (intro keeps_intros assms; simp)


lemma prepareAgents_extends:
  "trace (snd (prepareAgents w oh pw nu h tf st)) =
     trace st @ newEvents st (snd (prepareAgents w oh pw nu h tf st))"
  by (rule avoiding_trace [of "\<lambda>_. False"],
      rule keepsD [OF keeps_prepareAgents [OF avoiding_framed avoiding_logs]]) simp

lemma prepareAgents_untouched: "untouched st (snd (prepareAgents w oh pw nu h tf st))"
  by (rule keepsD [OF keeps_prepareAgents [OF untouched_framed untouched_logs]])


lemma prepareAgents_calls:
  "post (prepareAgents w oh pw nu h tf) st (\<lambda>r st'.
     (\<forall>ev \<in> set (newEvents st st'). handoverRunCall (request_of ev)) \<and>
     (\<forall>old did host. r = Inr (old, did, host) \<longrightarrow>
        (\<forall>ev \<in> set (butlast (butlast (newEvents st st'))). resolutionCall (request_of ev)) \<and>
        newEvents st st' = butlast (butlast (newEvents st st')) @
          [Ok (Login old oh pw tf), Ok (DescribeServer (AtpAgent nu))]))"
  unfolding prepareAgents_def resolveOldAgent_def loginOld_def call_defs
  by (intro post_intros; simp add: newEvents_def)

lemma accountCall_not_listMissing: "accountCall rq \<Longrightarrow> \<not> isListMissingBlobs rq"
  by (cases rq) simp_all

lemma blobCall_not_listMissing: "blobCall rq \<Longrightarrow> \<not> isListMissingBlobs rq"
  by (cases rq) simp_all

lemma finishCall_not_listMissing: "finishCall rq \<Longrightarrow> \<not> isListMissingBlobs rq"
  by (cases rq) simp_all

lemma reconcile_equal_counts:
  assumes "server_checkAccountStatus w (trace st) new = Inr s"
    and "expectedBlobs s = importedBlobs s"
  shows "migrateMissingBlobsPhase w h old new did st =
     Some (Inr (), if migrateMissingBlobs st
                   then st\<lparr>trace := trace st @ [Ok (CheckAccountStatus new)]\<rparr> else st)"
  using assms by (simp add: migrateMissingBlobsPhase_def call_defs perform_def)

lemma reconcile_rejected_status:
  assumes "server_checkAccountStatus w (trace st) new = Inl m"
  shows "migrateMissingBlobsPhase w h old new did st =
     Some (if migrateMissingBlobs st
           then (Inl (Remote m), st\<lparr>trace := trace st @ [Failed (CheckAccountStatus new)]\<rparr>)
           else (Inr (), st))"
  using assms by (simp add: migrateMissingBlobsPhase_def call_defs perform_def)

lemma reconcile_avoids_listing:
  assumes "\<forall>s. server_checkAccountStatus w (trace st) new = Inr s \<longrightarrow>
      expectedBlobs s = importedBlobs s"
    and "migrateMissingBlobsPhase w h old new did st = Some (r, st')"
  shows "avoiding isListMissingBlobs st st'"
proof (cases "server_checkAccountStatus w (trace st) new")
  case (Inl m)
  from reconcile_rejected_status [OF this] assms(2) show ?thesis
    by (auto simp: avoiding_def split: if_splits)
next
  case (Inr s)
  with assms(1) have "expectedBlobs s = importedBlobs s" by simp
  from reconcile_equal_counts [OF Inr this] assms(2) show ?thesis
    by (auto simp: avoiding_def split: if_splits)
qed

subsection \<open>The blob loops\<close>

lemma listingCalls_append [simp]: "listingCalls (a @ b) = listingCalls a @ listingCalls b"
  by (simp add: listingCalls_def)

lemma attempted_append [simp]: "attempted (a @ b) = attempted a @ attempted b"
  by (simp add: attempted_def)

lemma uploaded_append [simp]: "uploaded (a @ b) = uploaded a + uploaded b"
  by (simp add: uploaded_def)

lemma log_readers_Nil [simp]: "listingCalls [] = []" "attempted [] = []" "uploaded [] = 0"
  by (simp_all add: listingCalls_def attempted_def uploaded_def)




lemma settled_Nil [simp]: "settled []"
  by (simp add: settled_def)














subsection \<open>The scan of the PLC log\<close>

text \<open>The scan never hands back the current endpoint: the test of line 329 cannot
  succeed after the scan of lines 303 to 315.\<close>

lemma scanPlcLog_not_current:
  "toLowerCase p \<noteq> toLowerCase cur \<Longrightarrow> scanPlcLog cur lg p \<noteq> cur"
  by (induction cur lg p rule: scanPlcLog.induct) auto

section \<open>The claims\<close>

text \<open>
  C1. The claim: when the recommended credentials of the destination hold no rotation keys
  (the field \<^verbatim>\<open>rotationKeys\<close> is absent or empty), \<^verbatim>\<open>signPlcOperation\<close> fails and neither signs
  nor submits. The code does not do that. \<^verbatim>\<open>rotationKeys ?? []\<close> turns an absent field into an
  empty array and an array is truthy, so the test of line 253 lets an absent, a \<^verbatim>\<open>null\<close> and an
  empty field through: the run never throws \<^verbatim>\<open>No rotation key provided from the new PDS\<close>, and
  its second call asks the old PDS to sign the operation with \<^verbatim>\<open>rotationKeys = []\<close>.
\<close>

theorem missing_rotation_keys_are_not_fatal:
  "newAgent st = Some new \<and> oldAgent st = Some old \<and>
   identity_getRecommendedDidCredentials w (trace st) new = Inr creds \<and>
   (rotationKeys creds = Undefined \<or> rotationKeys creds = Null \<or> rotationKeys creds = Array []) \<longrightarrow>
     fst (signPlcOperation w token st) \<noteq> Inl (Error ''No rotation key provided from the new PDS'') \<and>
     (\<exists>e rest. newEvents st (snd (signPlcOperation w token st)) =
        Ok (GetRecommendedDidCredentials new) # e # rest \<and>
        request_of e = SignPlcOperation old token (creds\<lparr>rotationKeys := Array []\<rparr>))"
  unfolding signPlcOperation_def
  by (auto simp: await_def call_defs perform_def this_newAgent_def this_oldAgent_def throw_def
      newEvents_def split: sum.splits option.splits if_splits)

theorem missing_rotation_keys_are_not_fatal_witness:
  "signPlcOperation noRotationKeysWorld ''token'' migrated =
     (Inr (), migrated\<lparr>trace :=
        [Ok (GetRecommendedDidCredentials (AtpAgent ''https://new.example'')),
         Ok (SignPlcOperation (AtpAgent ''https://old.example'') ''token''
               \<lparr>rotationKeys = Array [], otherCredentials = ''{}''\<rparr>),
         Ok (SubmitPlcOperation (AtpAgent ''https://new.example'') ''op''),
         Ok (ActivateAccount (AtpAgent ''https://new.example'')),
         Ok (DeactivateAccount (AtpAgent ''https://old.example''))]\<rparr>) \<and>
   fst (signPlcOperation noRotationKeysWorld ''token'' migrated) \<noteq>
     Inl (Error ''No rotation key provided from the new PDS'')"
proof -
  have run: "signPlcOperation noRotationKeysWorld ''token'' migrated =
     (Inr (), migrated\<lparr>trace :=
        [Ok (GetRecommendedDidCredentials (AtpAgent ''https://new.example'')),
         Ok (SignPlcOperation (AtpAgent ''https://old.example'') ''token''
               \<lparr>rotationKeys = Array [], otherCredentials = ''{}''\<rparr>),
         Ok (SubmitPlcOperation (AtpAgent ''https://new.example'') ''op''),
         Ok (ActivateAccount (AtpAgent ''https://new.example'')),
         Ok (DeactivateAccount (AtpAgent ''https://old.example''))]\<rparr>)"
    by (simp add: signPlcOperation_def await_def call_defs perform_def this_newAgent_def
        this_oldAgent_def noRotationKeysWorld_def quietWorld_def migrated_def Migrator_def)
  have "fst (signPlcOperation noRotationKeysWorld ''token'' migrated) \<noteq>
     Inl (Error ''No rotation key provided from the new PDS'')"
    using missing_rotation_keys_are_not_fatal [of migrated "AtpAgent ''https://new.example''"
        "AtpAgent ''https://old.example''" noRotationKeysWorld
        "\<lparr>rotationKeys = Undefined, otherCredentials = ''{}''\<rparr>" "''token''"]
    by (simp add: noRotationKeysWorld_def quietWorld_def migrated_def Migrator_def)
  with run show ?thesis by blast
qed

text \<open>
  C2, as amended. A rerun of \<^verbatim>\<open>migrate\<close> with every flag false but \<^verbatim>\<open>migratePlcRecord\<close> always
  returns. It only calls the resolvers, \<^verbatim>\<open>login\<close>, \<^verbatim>\<open>describeServer\<close>, \<^verbatim>\<open>checkAccountStatus\<close> and
  \<^verbatim>\<open>requestPlcOperationSignature\<close>: no repository, blob or preferences call is issued. When it
  succeeds, its calls after the resolution of the identity are, in this order, the login on
  the old PDS, \<^verbatim>\<open>describeServer\<close> on the new PDS, the login on the new PDS, one
  \<^verbatim>\<open>checkAccountStatus\<close> on the new PDS and \<^verbatim>\<open>requestPlcOperationSignature\<close> on the old PDS.
\<close>

theorem handover_only_rerun:
  "\<not> createNewAccount st \<and> \<not> migrateRepo st \<and> \<not> migrateBlobs st \<and> \<not> migrateMissingBlobs st \<and>
   \<not> migratePrefs st \<and> migratePlcRecord st \<longrightarrow>
     (\<exists>r st'. migrate w oh pw nu ne nh ic h tf st = Some (r, st') \<and>
        (\<forall>ev \<in> set (newEvents st st'). handoverRunCall (request_of ev)) \<and>
        (r = Inr () \<longrightarrow>
           (\<exists>res old did.
              (\<forall>ev \<in> set res. resolutionCall (request_of ev)) \<and>
              newEvents st st' = res @
                [Ok (Login old (normalizeHandle oh) pw tf), Ok (DescribeServer (AtpAgent nu)),
                 Ok (Login (AtpAgent nu) did pw None), Ok (CheckAccountStatus (AtpAgent nu)),
                 Ok (RequestPlcOperationSignature old)])))"
proof
  assume H: "\<not> createNewAccount st \<and> \<not> migrateRepo st \<and> \<not> migrateBlobs st \<and>
    \<not> migrateMissingBlobs st \<and> \<not> migratePrefs st \<and> migratePlcRecord st"
  let ?oh = "normalizeHandle oh"
  obtain r1 st1 where p: "prepareAgents w ?oh pw nu h tf st = (r1, st1)"
    by (cases "prepareAgents w ?oh pw nu h tf st")
  from postD [OF prepareAgents_calls p]
  have c1: "\<forall>ev \<in> set (newEvents st st1). handoverRunCall (request_of ev)"
    and s1: "\<And>old did host. r1 = Inr (old, did, host) \<Longrightarrow>
        (\<forall>ev \<in> set (butlast (butlast (newEvents st st1))). resolutionCall (request_of ev)) \<and>
        newEvents st st1 = butlast (butlast (newEvents st st1)) @
          [Ok (Login old ?oh pw tf), Ok (DescribeServer (AtpAgent nu))]"
    by simp_all
  have t1: "trace st1 = trace st @ newEvents st st1"
    using prepareAgents_extends [of w ?oh pw nu h tf st] p by simp
  have f1: "\<not> createNewAccount st1" "\<not> migrateRepo st1" "\<not> migrateBlobs st1"
    "\<not> migrateMissingBlobs st1" "\<not> migratePrefs st1" "migratePlcRecord st1"
    using prepareAgents_untouched [of st w ?oh pw nu h tf] p H by (simp_all add: untouched_def)
  show "\<exists>r st'. migrate w oh pw nu ne nh ic h tf st = Some (r, st') \<and>
        (\<forall>ev \<in> set (newEvents st st'). handoverRunCall (request_of ev)) \<and>
        (r = Inr () \<longrightarrow>
           (\<exists>res old did.
              (\<forall>ev \<in> set res. resolutionCall (request_of ev)) \<and>
              newEvents st st' = res @
                [Ok (Login old ?oh pw tf), Ok (DescribeServer (AtpAgent nu)),
                 Ok (Login (AtpAgent nu) did pw None), Ok (CheckAccountStatus (AtpAgent nu)),
                 Ok (RequestPlcOperationSignature old)]))"
  proof (cases r1)
    case (Inl e)
    then have "migrate w oh pw nu ne nh ic h tf st = Some (Inl e, st1)"
      using p by (simp add: migrate_def migrateAccount_def await_def)
    then show ?thesis
      using c1 by auto
  next
    case (Inr x)
    obtain old did host where x: "x = (old, did, host)"
      by (cases x)
    have tail: "\<exists>r st' evs. migrate w oh pw nu ne nh ic h tf st = Some (r, st') \<and>
        trace st' = trace st1 @ evs \<and> (\<forall>ev \<in> set evs. handoverRunCall (request_of ev)) \<and>
        (r = Inr () \<longrightarrow> evs =
          [Ok (Login (AtpAgent nu) did pw None), Ok (CheckAccountStatus (AtpAgent nu)),
           Ok (RequestPlcOperationSignature old)])"
      using p Inr x f1
      by (auto simp: migrate_def migrateAccount_def await_def whenFlag_def notify_def return_def
          call_defs perform_def migrateBlobsPhase_def migrateMissingBlobsPhase_def
          migrateFinish_def split: sum.splits)
    then obtain r st' evs where run: "migrate w oh pw nu ne nh ic h tf st = Some (r, st')"
      and t2: "trace st' = trace st1 @ evs"
      and c2: "\<forall>ev \<in> set evs. handoverRunCall (request_of ev)"
      and s2: "r = Inr () \<longrightarrow> evs =
          [Ok (Login (AtpAgent nu) did pw None), Ok (CheckAccountStatus (AtpAgent nu)),
           Ok (RequestPlcOperationSignature old)]"
      by blast
    have n: "newEvents st st' = newEvents st st1 @ evs"
      by (rule newEvents_chain [OF t1 t2])
    have a: "\<forall>ev \<in> set (newEvents st st'). handoverRunCall (request_of ev)"
      using c1 c2 n by auto
    have b: "r = Inr () \<longrightarrow>
           (\<exists>res old did.
              (\<forall>ev \<in> set res. resolutionCall (request_of ev)) \<and>
              newEvents st st' = res @
                [Ok (Login old ?oh pw tf), Ok (DescribeServer (AtpAgent nu)),
                 Ok (Login (AtpAgent nu) did pw None), Ok (CheckAccountStatus (AtpAgent nu)),
                 Ok (RequestPlcOperationSignature old)])"
    proof
      assume "r = Inr ()"
      with s2 have e: "evs = [Ok (Login (AtpAgent nu) did pw None),
          Ok (CheckAccountStatus (AtpAgent nu)), Ok (RequestPlcOperationSignature old)]"
        by simp
      from s1 [OF Inr [unfolded x]]
      have r: "\<forall>ev \<in> set (butlast (butlast (newEvents st st1))). resolutionCall (request_of ev)"
        and l: "newEvents st st1 = butlast (butlast (newEvents st st1)) @
          [Ok (Login old ?oh pw tf), Ok (DescribeServer (AtpAgent nu))]"
        by simp_all
      have "newEvents st st' = butlast (butlast (newEvents st st1)) @
          [Ok (Login old ?oh pw tf), Ok (DescribeServer (AtpAgent nu)),
           Ok (Login (AtpAgent nu) did pw None), Ok (CheckAccountStatus (AtpAgent nu)),
           Ok (RequestPlcOperationSignature old)]"
        using n e l by (metis append.assoc append_Cons append_Nil)
      with r show "\<exists>res old did.
              (\<forall>ev \<in> set res. resolutionCall (request_of ev)) \<and>
              newEvents st st' = res @
                [Ok (Login old ?oh pw tf), Ok (DescribeServer (AtpAgent nu)),
                 Ok (Login (AtpAgent nu) did pw None), Ok (CheckAccountStatus (AtpAgent nu)),
                 Ok (RequestPlcOperationSignature old)]"
        by blast
    qed
    from run a b show ?thesis
      by blast
  qed
qed

theorem handover_only_rerun_witness:
  "(\<not> createNewAccount handoverOnly \<and> \<not> migrateRepo handoverOnly \<and> \<not> migrateBlobs handoverOnly \<and>
    \<not> migrateMissingBlobs handoverOnly \<and> \<not> migratePrefs handoverOnly \<and>
    migratePlcRecord handoverOnly) \<and>
   (\<exists>r st'. migrate quietWorld ''alice.example'' ''pw'' ''https://new.example'' ''a@new.example''
       ''alice.new.example'' None False None handoverOnly = Some (r, st') \<and>
      list_all (\<lambda>ev. handoverRunCall (request_of ev)) (newEvents handoverOnly st'))"
proof -
  have flags: "\<not> createNewAccount handoverOnly \<and> \<not> migrateRepo handoverOnly \<and>
    \<not> migrateBlobs handoverOnly \<and> \<not> migrateMissingBlobs handoverOnly \<and>
    \<not> migratePrefs handoverOnly \<and> migratePlcRecord handoverOnly"
    by (simp add: handoverOnly_def Migrator_def)
  from handover_only_rerun [of handoverOnly quietWorld "''alice.example''" "''pw''"
      "''https://new.example''" "''a@new.example''" "''alice.new.example''" None False None] flags
  have "\<exists>r st'. migrate quietWorld ''alice.example'' ''pw'' ''https://new.example''
      ''a@new.example'' ''alice.new.example'' None False None handoverOnly = Some (r, st') \<and>
      list_all (\<lambda>ev. handoverRunCall (request_of ev)) (newEvents handoverOnly st')"
    unfolding list_all_iff by blast
  with flags show ?thesis by blast
qed

text \<open>The claim as stated, "authentication only, no status call", fails on a rerun against
  services that accept every call: the destination is probed and its account status is
  read between the two logins and the request of the PLC token.\<close>

theorem handover_only_rerun_counterexample:
  "migrate quietWorld ''alice.example'' ''pw'' ''https://new.example'' ''a@new.example''
     ''alice.new.example'' None False None handoverOnly =
     Some (Inr (), handoverOnly\<lparr>
       oldAgent := Some (AtpAgent ''https://old.example''),
       newAgent := Some (AtpAgent ''https://new.example''),
       trace :=
         [Ok (HandleResolverResolve ''alice.example''),
          Ok (DocResolverResolve ''did:plc:alice''),
          Ok (Login (AtpAgent ''https://old.example'') ''alice.example'' ''pw'' None),
          Ok (DescribeServer (AtpAgent ''https://new.example'')),
          Ok (Login (AtpAgent ''https://new.example'') ''did:plc:alice'' ''pw'' None),
          Ok (CheckAccountStatus (AtpAgent ''https://new.example'')),
          Ok (RequestPlcOperationSignature (AtpAgent ''https://old.example''))]\<rparr>)"
  by code_simp








text \<open>
  C6. In every execution of \<^verbatim>\<open>signPlcOperation\<close>, \<^verbatim>\<open>activateAccount\<close> on the destination is
  called strictly before \<^verbatim>\<open>deactivateAccount\<close> on the source: either the execution makes
  no \<^verbatim>\<open>deactivateAccount\<close> call at all, or its calls are, in this order, the credentials
  request, the signature, the submission, an \<^verbatim>\<open>activateAccount\<close> on \<^verbatim>\<open>this.newAgent\<close> that
  returned, and last a \<^verbatim>\<open>deactivateAccount\<close> on \<^verbatim>\<open>this.oldAgent\<close>.
\<close>

theorem handover_activates_before_deactivating:
  "signPlcOperation w token st = (r, st') \<longrightarrow>
     (\<forall>e \<in> set (newEvents st st'). \<not> isDeactivateAccount (request_of e)) \<or>
     (\<exists>new old creds operation e.
        newAgent st = Some new \<and> oldAgent st = Some old \<and>
        newEvents st st' =
          [Ok (GetRecommendedDidCredentials new), Ok (SignPlcOperation old token creds),
           Ok (SubmitPlcOperation new operation), Ok (ActivateAccount new), e] \<and>
        request_of e = DeactivateAccount old)"
  unfolding signPlcOperation_def
  by (auto simp: await_def call_defs perform_def this_newAgent_def this_oldAgent_def throw_def
      newEvents_def split: sum.splits option.splits if_splits)

theorem handover_activates_before_deactivating_witness:
  "signPlcOperation quietWorld ''token'' migrated =
     (Inr (), migrated\<lparr>trace :=
        [Ok (GetRecommendedDidCredentials (AtpAgent ''https://new.example'')),
         Ok (SignPlcOperation (AtpAgent ''https://old.example'') ''token''
               \<lparr>rotationKeys = Array [''did:key:k''], otherCredentials = ''{}''\<rparr>),
         Ok (SubmitPlcOperation (AtpAgent ''https://new.example'') ''op''),
         Ok (ActivateAccount (AtpAgent ''https://new.example'')),
         Ok (DeactivateAccount (AtpAgent ''https://old.example''))]\<rparr>) \<and>
   (\<exists>e. newEvents migrated (snd (signPlcOperation quietWorld ''token'' migrated)) =
      [Ok (GetRecommendedDidCredentials (AtpAgent ''https://new.example'')),
       Ok (SignPlcOperation (AtpAgent ''https://old.example'') ''token''
             \<lparr>rotationKeys = Array [''did:key:k''], otherCredentials = ''{}''\<rparr>),
       Ok (SubmitPlcOperation (AtpAgent ''https://new.example'') ''op''),
       Ok (ActivateAccount (AtpAgent ''https://new.example'')), e] \<and>
      request_of e = DeactivateAccount (AtpAgent ''https://old.example''))"
proof -
  have run: "signPlcOperation quietWorld ''token'' migrated =
     (Inr (), migrated\<lparr>trace :=
        [Ok (GetRecommendedDidCredentials (AtpAgent ''https://new.example'')),
         Ok (SignPlcOperation (AtpAgent ''https://old.example'') ''token''
               \<lparr>rotationKeys = Array [''did:key:k''], otherCredentials = ''{}''\<rparr>),
         Ok (SubmitPlcOperation (AtpAgent ''https://new.example'') ''op''),
         Ok (ActivateAccount (AtpAgent ''https://new.example'')),
         Ok (DeactivateAccount (AtpAgent ''https://old.example''))]\<rparr>)"
    by (simp add: signPlcOperation_def await_def call_defs perform_def this_newAgent_def
        this_oldAgent_def quietWorld_def migrated_def Migrator_def)
  have dea: "\<not> (\<forall>e \<in> set (newEvents migrated (snd (signPlcOperation quietWorld ''token'' migrated))).
      \<not> isDeactivateAccount (request_of e))"
    unfolding run by (simp add: newEvents_def migrated_def Migrator_def)
  have agents: "newAgent migrated = Some (AtpAgent ''https://new.example'')"
    "oldAgent migrated = Some (AtpAgent ''https://old.example'')"
    by (simp_all add: migrated_def)
  from handover_activates_before_deactivating
    [of quietWorld "''token''" migrated "fst (signPlcOperation quietWorld ''token'' migrated)"
      "snd (signPlcOperation quietWorld ''token'' migrated)"] dea agents
  have "\<exists>e. newEvents migrated (snd (signPlcOperation quietWorld ''token'' migrated)) =
      [Ok (GetRecommendedDidCredentials (AtpAgent ''https://new.example'')),
       Ok (SignPlcOperation (AtpAgent ''https://old.example'') ''token''
             \<lparr>rotationKeys = Array [''did:key:k''], otherCredentials = ''{}''\<rparr>),
       Ok (SubmitPlcOperation (AtpAgent ''https://new.example'') ''op''),
       Ok (ActivateAccount (AtpAgent ''https://new.example'')), e] \<and>
      request_of e = DeactivateAccount (AtpAgent ''https://old.example'')"
    unfolding run by (auto simp: newEvents_def migrated_def Migrator_def)
  with run show ?thesis by blast
qed



text \<open>
  C8. When the account status read by the reconciliation phase reports
  \<^verbatim>\<open>expectedBlobs\<close> equal to \<^verbatim>\<open>importedBlobs\<close>, the phase makes that one call and returns: it
  issues no \<^verbatim>\<open>listMissingBlobs\<close> call. For a whole run of \<^verbatim>\<open>migrate\<close>: if every account status
  that the destination reports after the first status read of the run (the one of line
  152, before the blob sync) has equal counts, the run issues no \<^verbatim>\<open>listMissingBlobs\<close> call.
\<close>

theorem reconciliation_skips_listing_when_counts_agree:
  "(server_checkAccountStatus w (trace st) new = Inr s \<and> expectedBlobs s = importedBlobs s \<longrightarrow>
      migrateMissingBlobsPhase w h old new did st =
        Some (Inr (), if migrateMissingBlobs st
                      then st\<lparr>trace := trace st @ [Ok (CheckAccountStatus new)]\<rparr> else st)) \<and>
   (migrate w oh pw nu ne nh ic h tf st = Some (r, st') \<and>
    (\<forall>l s. (\<exists>ev \<in> set l. request_of ev = CheckAccountStatus (AtpAgent nu)) \<and>
       server_checkAccountStatus w (trace st @ l) (AtpAgent nu) = Inr s \<longrightarrow>
         expectedBlobs s = importedBlobs s) \<longrightarrow>
      (\<forall>ev \<in> set (newEvents st st'). \<not> isListMissingBlobs (request_of ev)))"
proof (intro conjI impI)
  assume A: "server_checkAccountStatus w (trace st) new = Inr s \<and> expectedBlobs s = importedBlobs s"
  show "migrateMissingBlobsPhase w h old new did st =
        Some (Inr (), if migrateMissingBlobs st
                      then st\<lparr>trace := trace st @ [Ok (CheckAccountStatus new)]\<rparr> else st)"
    by (rule reconcile_equal_counts [OF conjunct1 [OF A] conjunct2 [OF A]])
next
  let ?K = isListMissingBlobs
  assume H: "migrate w oh pw nu ne nh ic h tf st = Some (r, st') \<and>
    (\<forall>l s. (\<exists>ev \<in> set l. request_of ev = CheckAccountStatus (AtpAgent nu)) \<and>
       server_checkAccountStatus w (trace st @ l) (AtpAgent nu) = Inr s \<longrightarrow>
         expectedBlobs s = importedBlobs s)"
  note run = conjunct1 [OF H] and agree = conjunct2 [OF H, rule_format]
  note AV = avoiding_framed [of ?K] avoiding_logs [of ?K, OF accountCall_not_listMissing]
    avoiding_logs [of ?K] avoiding_logs [of ?K, OF blobCall_not_listMissing]
  have reconcile: "avoiding ?K st st4"
    if 1: "migrateAccount w (normalizeHandle oh) pw nu ne nh ic h tf st = (Inr (old, did), st1)"
      and 2: "com_atproto_server_checkAccountStatus w (AtpAgent nu) st1 = (Inr status, st2)"
      and 3: "migrateBlobsPhase w h old (AtpAgent nu) did status st2 = Some (Inr (), st3)"
      and 4: "migrateMissingBlobsPhase w h old (AtpAgent nu) did st3 = Some (r4, st4)"
    for old did st1 status st2 st3 r4 st4
  proof -
    have "keeps (avoiding ?K) (migrateAccount w (normalizeHandle oh) pw nu ne nh ic h tf)"
      by (rule keeps_migrateAccount [OF AV(1,2)])
    from keepsD [OF this, of st] have a1: "avoiding ?K st st1"
      using 1 by simp
    have t2: "trace st2 = trace st1 @ [Ok (CheckAccountStatus (AtpAgent nu))]"
      using 2 by (auto simp: call_defs perform_def split: sum.splits)
    have a3: "avoiding ?K st2 st3"
      using keeps_migrateBlobsPhase [OF AV(1,4) 3] by simp
    have a03: "avoiding ?K st st3"
      by (rule keeps_upto_blobs [OF AV(1,2,3,4) 1 2 3]) simp_all
    have "trace st3 = trace st @ (newEvents st st1 @ [Ok (CheckAccountStatus (AtpAgent nu))]
        @ newEvents st2 st3)"
      using avoiding_trace [OF a1] avoiding_trace [OF a3] t2 by simp
    then have "\<forall>s. server_checkAccountStatus w (trace st3) (AtpAgent nu) = Inr s \<longrightarrow>
        expectedBlobs s = importedBlobs s"
      using agree [of "newEvents st st1 @ [Ok (CheckAccountStatus (AtpAgent nu))]
        @ newEvents st2 st3"] by auto
    from reconcile_avoids_listing [OF this 4] show ?thesis
      by (rule framed_trans [OF avoiding_framed a03])
  qed
  from run have "avoiding ?K st st'"
  proof (cases rule: migrate_cases)
    case (account e)
    have "keeps (avoiding ?K) (migrateAccount w (normalizeHandle oh) pw nu ne nh ic h tf)"
      by (rule keeps_migrateAccount [OF AV(1,2)])
    from keepsD [OF this, of st] show ?thesis
      using account by simp
  next
    case (status old did st1 e)
    show ?thesis
      by (rule keeps_upto_status [OF AV(1,2,3) status(1,2)]) simp_all
  next
    case (blobs old did st1 status st2 e)
    show ?thesis
      by (rule keeps_upto_blobs [OF AV(1,2,3,4) blobs(1,2,3)]) simp_all
  next
    case (missing old did st1 status st2 st3 e)
    show ?thesis
      by (rule reconcile [OF missing(1,2,3,4)])
  next
    case (finish old did st1 status st2 st3 st4)
    have "keeps (avoiding ?K) (migrateFinish w h old (AtpAgent nu))"
      by (rule keeps_migrateFinish
          [OF avoiding_framed avoiding_logs [OF finishCall_not_listMissing] avoiding_storing])
    from keepsD [OF this, of st4] have "avoiding ?K st4 st'"
      using finish(5) by simp
    then show ?thesis
      by (rule framed_trans [OF avoiding_framed reconcile [OF finish(1,2,3,4)]])
  qed
  then show "\<forall>ev \<in> set (newEvents st st'). \<not> isListMissingBlobs (request_of ev)"
    by (rule avoidingD)
qed

theorem reconciliation_skips_listing_when_counts_agree_witness:
  "migrateMissingBlobsPhase quietWorld False (AtpAgent ''https://old.example'')
     (AtpAgent ''https://new.example'') ''did:plc:alice'' Migrator =
     Some (Inr (), Migrator\<lparr>trace := [Ok (CheckAccountStatus (AtpAgent ''https://new.example''))]\<rparr>) \<and>
   (\<exists>st'. migrate quietWorld ''alice.example'' ''pw'' ''https://new.example'' ''a@new.example''
       ''alice.new.example'' None False None Migrator = Some (Inr (), st') \<and>
      list_all (\<lambda>ev. \<not> isListMissingBlobs (request_of ev)) (newEvents Migrator st'))"
proof -
  note T = reconciliation_skips_listing_when_counts_agree [where w = quietWorld
      and st = Migrator and h = False]
  have s: "server_checkAccountStatus quietWorld l a =
      Inr \<lparr>activated = True, expectedBlobs = 0, importedBlobs = 0\<rparr>" for l a
    by (simp add: quietWorld_def)
  have "migrateMissingBlobsPhase quietWorld False (AtpAgent ''https://old.example'')
     (AtpAgent ''https://new.example'') ''did:plc:alice'' Migrator =
     Some (Inr (), Migrator\<lparr>trace := [Ok (CheckAccountStatus (AtpAgent ''https://new.example''))]\<rparr>)"
    using T [where new = "AtpAgent ''https://new.example''"
        and s = "\<lparr>activated = True, expectedBlobs = 0, importedBlobs = 0\<rparr>"
        and old = "AtpAgent ''https://old.example''" and did = "''did:plc:alice''"] s
    by (simp add: Migrator_def)
  moreover have "map_option fst (migrate quietWorld ''alice.example'' ''pw''
      ''https://new.example'' ''a@new.example'' ''alice.new.example'' None False None Migrator)
      = Some (Inr ())"
    by code_simp
  then obtain st' where run: "migrate quietWorld ''alice.example'' ''pw''
      ''https://new.example'' ''a@new.example'' ''alice.new.example'' None False None Migrator
      = Some (Inr (), st')"
    by (cases "migrate quietWorld ''alice.example'' ''pw''
      ''https://new.example'' ''a@new.example'' ''alice.new.example'' None False None Migrator")
      auto
  have "list_all (\<lambda>ev. \<not> isListMissingBlobs (request_of ev)) (newEvents Migrator st')"
    using T [where oh = "''alice.example''" and pw = "''pw''" and nu = "''https://new.example''"
        and ne = "''a@new.example''" and nh = "''alice.new.example''" and ic = None
        and tf = None and r = "Inr ()" and st' = st'] run s
    unfolding list_all_iff by simp
  ultimately show ?thesis
    using run by blast
qed

text \<open>
  C9. The list \<^verbatim>\<open>this.missingBlobs\<close> is append-only across every operation of an instance:
  whenever \<^verbatim>\<open>migrate\<close> returns, and after \<^verbatim>\<open>signPlcOperation\<close> and \<^verbatim>\<open>deactivateOldAccount\<close>,
  the list is the list before the operation followed by the entries the operation added.
  No entry is removed or reset, so the entries of one run are still there in the next.
\<close>

theorem missingBlobs_append_only:
  "(migrate w oh pw nu ne nh ic h tf st = Some (r, st') \<longrightarrow>
      (\<exists>added. missingBlobs st' = missingBlobs st @ added)) \<and>
   (\<exists>added. missingBlobs (snd (signPlcOperation w token st)) = missingBlobs st @ added) \<and>
   (\<exists>added. missingBlobs (snd (deactivateOldAccount w oh pw h tf st)) = missingBlobs st @ added)"
proof (intro conjI impI)
  assume "migrate w oh pw nu ne nh ic h tf st = Some (r, st')"
  from keeps_migrate [OF appendOnly_framed appendOnly_logs appendOnly_growing appendOnly_storing this]
  show "\<exists>added. missingBlobs st' = missingBlobs st @ added"
    by (simp add: appendOnly_def)
next
  show "\<exists>added. missingBlobs (snd (signPlcOperation w token st)) = missingBlobs st @ added"
    using keepsD [OF keeps_signPlcOperation [OF appendOnly_framed appendOnly_logs]]
    by (simp add: appendOnly_def)
next
  show "\<exists>added. missingBlobs (snd (deactivateOldAccount w oh pw h tf st)) = missingBlobs st @ added"
    using keepsD [OF keeps_deactivateOldAccount [OF appendOnly_framed appendOnly_logs]]
    by (simp add: appendOnly_def)
qed

theorem missingBlobs_append_only_witness:
  "\<exists>st1 st2.
     migrate brokenBlobWorld ''alice.example'' ''pw'' ''https://new.example'' ''a@new.example''
       ''alice.new.example'' None False None Migrator = Some (Inr (), st1) \<and>
     missingBlobs st1 = [''bafy1'', ''bafy1''] \<and>
     migrate brokenBlobWorld ''alice.example'' ''pw'' ''https://new.example'' ''a@new.example''
       ''alice.new.example'' None False None st1 = Some (Inr (), st2) \<and>
     (\<exists>added. missingBlobs st2 = [''bafy1'', ''bafy1''] @ added)"
proof -
  define run where "run = migrate brokenBlobWorld ''alice.example'' ''pw'' ''https://new.example''
    ''a@new.example'' ''alice.new.example'' None False None"
  have 1: "map_option fst (run Migrator) = Some (Inr ())"
    "map_option (\<lambda>y. missingBlobs (snd y)) (run Migrator) = Some [''bafy1'', ''bafy1'']"
    unfolding run_def by code_simp+
  then obtain st1 where st1: "run Migrator = Some (Inr (), st1)"
    "missingBlobs st1 = [''bafy1'', ''bafy1'']"
    by (cases "run Migrator") auto
  have 2: "map_option fst (run (snd (the (run Migrator)))) = Some (Inr ())"
    unfolding run_def by code_simp
  then obtain st2 where st2: "run st1 = Some (Inr (), st2)"
    using st1 by (cases "run st1") auto
  from missingBlobs_append_only [of brokenBlobWorld "''alice.example''" "''pw''"
      "''https://new.example''" "''a@new.example''" "''alice.new.example''" None False None st1
      "Inr ()" st2] st2 st1
  have "\<exists>added. missingBlobs st2 = [''bafy1'', ''bafy1''] @ added"
    by (simp add: run_def)
  with st1 st2 show ?thesis
    unfolding run_def by blast
qed

text \<open>
  C10. \<^verbatim>\<open>signPlcOperation\<close> on an instance whose \<^verbatim>\<open>newAgent\<close> is still \<^verbatim>\<open>null\<close> always fails: it
  throws the \<^verbatim>\<open>TypeError\<close> of a read on \<^verbatim>\<open>null\<close> before any call is made and leaves the state
  as it was. The constructor sets both agents to \<^verbatim>\<open>null\<close>, and \<^verbatim>\<open>migrate\<close> stores them only
  after the preferences phase: a run of \<^verbatim>\<open>migrate\<close> that fails without having requested the
  PLC token leaves the stored agents as they were.
\<close>

theorem signPlcOperation_without_agents:
  "(newAgent st = None \<longrightarrow> signPlcOperation w token st = (Inl TypeError, st)) \<and>
   newAgent Migrator = None \<and> oldAgent Migrator = None \<and>
   (migrate w oh pw nu ne nh ic h tf st = Some (Inl e, st') \<and>
    (\<forall>ev \<in> set (newEvents st st'). \<not> isRequestPlcOperationSignature (request_of ev)) \<longrightarrow>
      sameAgents st st')"
proof (intro conjI impI)
  assume "newAgent st = None"
  then show "signPlcOperation w token st = (Inl TypeError, st)"
    by (simp add: signPlcOperation_def await_def this_newAgent_def)
next
  show "newAgent Migrator = None" "oldAgent Migrator = None"
    by (simp_all add: Migrator_def)
next
  assume H: "migrate w oh pw nu ne nh ic h tf st = Some (Inl e, st') \<and>
    (\<forall>ev \<in> set (newEvents st st'). \<not> isRequestPlcOperationSignature (request_of ev))"
  then have run: "migrate w oh pw nu ne nh ic h tf st = Some (Inl e, st')"
    and quiet: "\<forall>ev \<in> set (newEvents st st'). \<not> isRequestPlcOperationSignature (request_of ev)"
    by simp_all
  note SA = sameAgents_framed sameAgents_logs sameAgents_logs sameAgents_logs
    sameAgents_growing sameAgents_logs
  note EX = avoiding_framed [of "\<lambda>_. False"] avoiding_logs [of "\<lambda>_. False"]
    avoiding_logs [of "\<lambda>_. False"] avoiding_logs [of "\<lambda>_. False"]
    avoiding_growing [of "\<lambda>_. False"] avoiding_logs [of "\<lambda>_. False"]
  from run show "sameAgents st st'"
  proof (cases rule: migrate_cases)
    case (account e')
    have "keeps sameAgents (migrateAccount w (normalizeHandle oh) pw nu ne nh ic h tf)"
      by (rule keeps_migrateAccount [OF sameAgents_framed sameAgents_logs])
    from keepsD [OF this, of st] show ?thesis
      using account by simp
  next
    case (status old did st1 e')
    show ?thesis
      by (rule keeps_upto_status [OF SA(1,2,3) status(1,2)])
  next
    case (blobs old did st1 status st2 e')
    show ?thesis
      by (rule keeps_upto_blobs [OF SA(1,2,3,4) blobs(1,2,3)])
  next
    case (missing old did st1 status st2 st3 e')
    show ?thesis
      by (rule keeps_upto_missing [OF SA missing(1,2,3,4)])
  next
    case (finish old did st1 status st2 st3 st4)
    have 1: "sameAgents st st4"
      by (rule keeps_upto_missing [OF SA finish(1,2,3,4)])
    have 2: "avoiding (\<lambda>_. False) st st4"
      by (rule keeps_upto_missing [OF EX finish(1,2,3,4)]; simp)
    have "keeps (avoiding (\<lambda>_. False)) (migrateFinish w h old (AtpAgent nu))"
      by (rule keeps_migrateFinish [OF avoiding_framed avoiding_logs avoiding_storing]) simp
    from keepsD [OF this, of st4] have 3: "avoiding (\<lambda>_. False) st4 st'"
      using finish(5) by simp
    have "\<forall>ev \<in> set (newEvents st4 st'). \<not> isRequestPlcOperationSignature (request_of ev)"
      using quiet newEvents_trans [OF 2 3] by simp
    from migrateFinish_agents [OF finish(5) this] have "sameAgents st4 st'" .
    then show ?thesis
      by (rule framed_trans [OF sameAgents_framed 1])
  qed
qed


theorem signPlcOperation_without_agents_witness:
  "newAgent Migrator = None \<and>
   signPlcOperation quietWorld ''token'' Migrator = (Inl TypeError, Migrator) \<and>
   (\<exists>e st'. migrate brokenPrefsWorld ''alice.example'' ''pw'' ''https://new.example''
       ''a@new.example'' ''alice.new.example'' None False None Migrator = Some (Inl e, st') \<and>
     (\<forall>ev \<in> set (newEvents Migrator st'). \<not> isRequestPlcOperationSignature (request_of ev)) \<and>
     newAgent st' = None \<and>
     signPlcOperation quietWorld ''token'' st' = (Inl TypeError, st'))"
proof -
  define run where "run = migrate brokenPrefsWorld ''alice.example'' ''pw'' ''https://new.example''
    ''a@new.example'' ''alice.new.example'' None False None Migrator"
  have 1: "map_option fst run = Some (Inl (Remote ''InternalServerError''))"
    "map_option (\<lambda>y. list_all (\<lambda>ev. \<not> isRequestPlcOperationSignature (request_of ev))
        (newEvents Migrator (snd y))) run = Some True"
    unfolding run_def by code_simp+
  then obtain st' where st': "run = Some (Inl (Remote ''InternalServerError''), st')"
    "\<forall>ev \<in> set (newEvents Migrator st'). \<not> isRequestPlcOperationSignature (request_of ev)"
    by (cases run) (auto simp: list_all_iff)
  note T = signPlcOperation_without_agents [where w = quietWorld and token = "''token''"]
  have n: "newAgent Migrator = None"
    using T [where st = Migrator] by simp
  have "sameAgents Migrator st'"
    using signPlcOperation_without_agents [where w = brokenPrefsWorld and st = Migrator
        and e = "Remote ''InternalServerError''" and st' = st' and oh = "''alice.example''"
        and pw = "''pw''" and nu = "''https://new.example''" and ne = "''a@new.example''"
        and nh = "''alice.new.example''" and ic = None and h = False and tf = None] st'
    by (simp add: run_def)
  then have n': "newAgent st' = None"
    using n by (simp add: sameAgents_def)
  have "signPlcOperation quietWorld ''token'' Migrator = (Inl TypeError, Migrator)"
    using T [where st = Migrator] n by simp
  moreover have "signPlcOperation quietWorld ''token'' st' = (Inl TypeError, st')"
    using T [where st = st'] n' by simp
  ultimately show ?thesis
    using n n' st' unfolding run_def by blast
qed


end
